theory Spec2Isabelle
  imports Complex_Main
begin

section \<open>JavaScript strings\<close>

text \<open>
  A JavaScript string is a sequence of UTF-16 code units; \<open>length\<close>, \<open>slice\<close>,
  \<open>substring\<close> and the regular expressions of \<open>route.ts\<close> (none has the \<open>u\<close> flag)
  all count and compare code units. A code unit is a natural number here, so that the
  rupee sign U+20B9 and the Unicode blanks of \<open>\s\<close> are ordinary elements.
\<close>

type_synonym jsstring = "nat list"

definition js :: "string \<Rightarrow> jsstring" where
  "js s = map of_char s"

definition isWhiteSpace :: "nat \<Rightarrow> bool" where
  \<comment> \<open>The class \<open>\s\<close>, which is also what \<open>trim\<close> removes: WhiteSpace and LineTerminator.\<close>
  "isWhiteSpace c \<longleftrightarrow>
     (9 \<le> c \<and> c \<le> 13) \<or> c = 32 \<or> c = 160 \<or> c = 5760 \<or> (8192 \<le> c \<and> c \<le> 8202) \<or>
     c = 8232 \<or> c = 8233 \<or> c = 8239 \<or> c = 8287 \<or> c = 12288 \<or> c = 65279"

definition isDigit :: "nat \<Rightarrow> bool" where
  "isDigit c \<longleftrightarrow> 48 \<le> c \<and> c \<le> 57"

definition trim :: "jsstring \<Rightarrow> jsstring" where
  "trim s = rev (dropWhile isWhiteSpace (rev (dropWhile isWhiteSpace s)))"

definition startsWith :: "jsstring \<Rightarrow> jsstring \<Rightarrow> bool" where
  "startsWith s t \<longleftrightarrow> take (length t) s = t"

fun includesStr :: "jsstring \<Rightarrow> jsstring \<Rightarrow> bool" where
  "includesStr [] t = (t = [])"
| "includesStr (c # cs) t = (startsWith (c # cs) t \<or> includesStr cs t)"

fun splitOn :: "nat \<Rightarrow> jsstring \<Rightarrow> jsstring list" where
  \<comment> \<open>\<open>s.split(sep)\<close> for a separator of one code unit; the empty string gives \<open>[""]\<close>.\<close>
  "splitOn sep [] = [[]]"
| "splitOn sep (c # cs) =
     (if c = sep then [] # splitOn sep cs
      else (case splitOn sep cs of [] \<Rightarrow> [[c]] | w # ws \<Rightarrow> (c # w) # ws))"

fun joinWith :: "jsstring \<Rightarrow> jsstring list \<Rightarrow> jsstring" where
  "joinWith sep [] = []"
| "joinWith sep [x] = x"
| "joinWith sep (x # y # ys) = x @ sep @ joinWith sep (y # ys)"

definition asciiLower :: "jsstring \<Rightarrow> jsstring" where
  \<comment> \<open>\<open>toLowerCase\<close> on ASCII text. The functions below take the platform's
      \<open>toLowerCase\<close> as the parameter \<open>lc\<close>; this is its value on ASCII strings, used to
      evaluate them on concrete inputs.\<close>
  "asciiLower s = map (\<lambda>c. if 65 \<le> c \<and> c \<le> 90 then c + 32 else c) s"

section \<open>Regular expressions\<close>

text \<open>
  A regular expression is run as a backtracking matcher: applied to the text that starts
  at the current position it returns every way of matching there, as pairs of the matched
  text and the rest, in the priority order of ECMAScript (alternatives left to right,
  greedy quantifiers longest first). The head of that list is the match JavaScript
  reports at that position.
\<close>

type_synonym rx = "jsstring \<Rightarrow> (jsstring \<times> jsstring) list"

definition canon :: "nat \<Rightarrow> nat" where
  \<comment> \<open>Canonicalize of a pattern with the \<open>i\<close> flag and without \<open>u\<close>. Every letter of the
      patterns below is ASCII, and Canonicalize never maps a code unit above 127 to one
      below 128, so upper-casing the ASCII letters decides every comparison made here.\<close>
  "canon c = (if 97 \<le> c \<and> c \<le> 122 then c - 32 else c)"

definition rx_class :: "(nat \<Rightarrow> bool) \<Rightarrow> rx" where
  "rx_class P s = (case s of [] \<Rightarrow> [] | x # r \<Rightarrow> if P x then [([x], r)] else [])"

definition rx_char :: "bool \<Rightarrow> nat \<Rightarrow> rx" where
  "rx_char ci c = rx_class (\<lambda>x. if ci then canon x = canon c else x = c)"

definition rx_seq :: "rx \<Rightarrow> rx \<Rightarrow> rx" where
  "rx_seq p q s = concat (map (\<lambda>(m1, r1). map (\<lambda>(m2, r2). (m1 @ m2, r2)) (q r1)) (p s))"

definition rx_empty :: rx where
  "rx_empty s = [([], s)]"

definition rx_lit :: "bool \<Rightarrow> jsstring \<Rightarrow> rx" where
  "rx_lit ci t = foldr (\<lambda>c p. rx_seq (rx_char ci c) p) t rx_empty"

definition rx_alt :: "rx list \<Rightarrow> rx" where
  "rx_alt ps s = concat (map (\<lambda>p. p s) ps)"

definition rx_opt :: "rx \<Rightarrow> rx" where
  "rx_opt p s = p s @ [([], s)]"

definition rx_star :: "(nat \<Rightarrow> bool) \<Rightarrow> rx" where
  \<comment> \<open>\<open>[...]*\<close> on a character class: the longest run first, then each shorter one.\<close>
  "rx_star P s = map (\<lambda>k. (take k s, drop k s)) (rev [0 ..< Suc (length (takeWhile P s))])"

definition rx_plus :: "(nat \<Rightarrow> bool) \<Rightarrow> rx" where
  "rx_plus P s = map (\<lambda>k. (take k s, drop k s)) (rev [1 ..< Suc (length (takeWhile P s))])"

definition rx_eos :: rx where
  \<comment> \<open>\<open>$\<close> without the \<open>m\<close> flag: the end of the input.\<close>
  "rx_eos s = (if s = [] then [([], [])] else [])"

text \<open>
  Every pattern of \<open>route.ts\<close> has exactly one capture group, at the top level of its
  sequence: what stands before the group, the group, what stands after it.
\<close>

record pattern =
  before :: rx
  group1 :: rx
  after :: rx

definition exec :: "pattern \<Rightarrow> jsstring \<Rightarrow> (jsstring \<times> jsstring \<times> jsstring) list" where
  \<comment> \<open>The matches at the current position: whole match, capture group 1, rest.\<close>
  "exec pat s =
     concat (map (\<lambda>(m1, r1).
       concat (map (\<lambda>(m2, r2).
         map (\<lambda>(m3, r3). (m1 @ m2 @ m3, m2, r3)) (after pat r2)) (group1 pat r1))) (before pat s))"

fun matchAll :: "pattern \<Rightarrow> jsstring \<Rightarrow> (jsstring \<times> jsstring) list" where
  \<comment> \<open>\<open>[...text.matchAll(re)]\<close> and \<open>text.match(re)\<close> with the \<open>g\<close> flag: scan left to
      right, resume after each match (one code unit further after an empty one). Each
      element is the whole match with its capture group 1.\<close>
  "matchAll pat [] = (case exec pat [] of [] \<Rightarrow> [] | (m, g, r) # _ \<Rightarrow> [(m, g)])"
| "matchAll pat (c # cs) =
     (case exec pat (c # cs) of
        [] \<Rightarrow> matchAll pat cs
      | (m, g, r) # _ \<Rightarrow> (m, g) # matchAll pat (drop (length m - 1) cs))"

fun firstMatch :: "rx \<Rightarrow> jsstring \<Rightarrow> jsstring option" where
  \<comment> \<open>\<open>text.match(re)\<close> without the \<open>g\<close> flag: element 0 of the leftmost match.\<close>
  "firstMatch p [] = (case p [] of [] \<Rightarrow> None | (m, r) # _ \<Rightarrow> Some m)"
| "firstMatch p (c # cs) = (case p (c # cs) of [] \<Rightarrow> firstMatch p cs | (m, r) # _ \<Rightarrow> Some m)"

section \<open>Message Parser: \<open>parseEmailData\<close>\<close>

text \<open>
  A Gmail message as \<open>parseEmailData\<close> reads it: an optional payload, which is the root
  of a tree of parts and carries the header list, and an optional snippet. A part has an
  optional base64 payload (\<open>part.body?.data\<close>) and its sub-parts (none when \<open>part.parts\<close>
  is not an array).
\<close>

datatype part = Part (body_data: "jsstring option") (parts: "part list")

record raw_message =
  payload :: "((jsstring \<times> jsstring) list \<times> part) option"
  snippet :: "jsstring option"

definition stripControl :: "jsstring \<Rightarrow> jsstring" where
  \<comment> \<open>\<open>content.replace(/[\u0000-\u001F\u007F-\u009F]/g, "")\<close>\<close>
  "stripControl s = filter (\<lambda>c. \<not> (c \<le> 31 \<or> (127 \<le> c \<and> c \<le> 159))) s"

fun getBodyContent :: "(jsstring \<Rightarrow> jsstring) \<Rightarrow> part \<Rightarrow> jsstring" where
  \<comment> \<open>What one call appends to \<open>body\<close>. \<open>decode\<close> is
      \<open>Buffer.from(data, "base64").toString("utf-8")\<close>, which does not throw on a string,
      so the \<open>catch\<close> of the source has no branch here. An empty \<open>data\<close> is falsy.\<close>
  "getBodyContent decode (Part d ps) =
     (case d of
        None \<Rightarrow> []
      | Some t \<Rightarrow> if t = [] then [] else stripControl (decode t) @ [10])
     @ concat (map (getBodyContent decode) ps)"

definition headerValue :: "(jsstring \<times> jsstring) list \<Rightarrow> jsstring \<Rightarrow> jsstring \<Rightarrow> jsstring" where
  \<comment> \<open>\<open>headers.find(h => h.name === name)?.value || dflt\<close>\<close>
  "headerValue hs name dflt =
     (case find (\<lambda>h. fst h = name) hs of
        None \<Rightarrow> dflt
      | Some h \<Rightarrow> if snd h = [] then dflt else snd h)"

definition decodedBody :: "(jsstring \<Rightarrow> jsstring) \<Rightarrow> raw_message \<Rightarrow> jsstring" where
  \<comment> \<open>\<open>body\<close> when \<open>getBodyContent(emailData.payload)\<close> is over, if there is a payload\<close>
  "decodedBody decode emailData =
     (case payload emailData of None \<Rightarrow> [] | Some (hs, p) \<Rightarrow> getBodyContent decode p)"

definition emailBody :: "(jsstring \<Rightarrow> jsstring) \<Rightarrow> raw_message \<Rightarrow> jsstring" where
  \<comment> \<open>\<open>body\<close> after \<open>body = body.trim() || emailData.snippet || "No content available"\<close>\<close>
  "emailBody decode emailData =
     (let body = trim (decodedBody decode emailData)
      in if body \<noteq> [] then body
         else (case snippet emailData of
                 None \<Rightarrow> js ''No content available''
               | Some sn \<Rightarrow> if sn \<noteq> [] then sn else js ''No content available''))"

definition truncateContent :: "jsstring \<Rightarrow> jsstring" where
  \<comment> \<open>\<open>body.length > 200 ? body.slice(0, 200) + "..." : body\<close>\<close>
  "truncateContent body = (if length body > 200 then take 200 body @ js ''...'' else body)"

definition parseEmailData :: "(jsstring \<Rightarrow> jsstring) \<Rightarrow> raw_message \<Rightarrow> jsstring" where
  "parseEmailData decode emailData =
     (let headers = (case payload emailData of None \<Rightarrow> [] | Some (hs, p) \<Rightarrow> hs);
          subject = headerValue headers (js ''Subject'') (js ''No Subject'');
          from = headerValue headers (js ''From'') (js ''Unknown Sender'');
          date = headerValue headers (js ''Date'') (js ''No Date'');
          snip = truncateContent (emailBody decode emailData)
      in js ''From: '' @ from @ [10] @ js ''Subject: '' @ subject @ [10] @
         js ''Date: '' @ date @ [10] @ js ''Content: '' @ snip)"

section \<open>Amount Aggregator: \<open>calculateSum\<close>\<close>

definition currencyRx :: "bool \<Rightarrow> rx" where
  \<comment> \<open>\<open>(?:\<rupee>|Rs\.?|INR|USD|\$)\<close>, the rupee sign being U+20B9; \<open>ci\<close> is the \<open>i\<close> flag.\<close>
  "currencyRx ci =
     rx_alt [rx_char ci 8377,
             rx_seq (rx_lit ci (js ''Rs'')) (rx_opt (rx_char ci 46)),
             rx_lit ci (js ''INR''),
             rx_lit ci (js ''USD''),
             rx_char ci 36]"

definition amountRx :: rx where
  \<comment> \<open>the capture group \<open>([0-9,]+(?:\.[0-9]+)?)\<close>\<close>
  "amountRx =
     rx_seq (rx_plus (\<lambda>c. isDigit c \<or> c = 44))
            (rx_opt (rx_seq (rx_char True 46) (rx_plus isDigit)))"

definition moneyPattern :: pattern where
  \<comment> \<open>\<open>/(?:\<rupee>|Rs\.?|INR|USD|\$)\s*([0-9,]+(?:\.[0-9]+)?)/gi\<close>\<close>
  "moneyPattern =
     \<lparr>before = rx_seq (currencyRx True) (rx_star isWhiteSpace),
      group1 = amountRx,
      after = rx_empty\<rparr>"

definition boundedMoneyPattern :: pattern where
  \<comment> \<open>\<open>/(?:\<rupee>|Rs\.?|INR|USD|\$)\s*([0-9,]+(?:\.[0-9]+)?)(?:[^0-9]|$)/gi\<close>\<close>
  "boundedMoneyPattern =
     \<lparr>before = rx_seq (currencyRx True) (rx_star isWhiteSpace),
      group1 = amountRx,
      after = rx_alt [rx_class (\<lambda>c. \<not> isDigit c), rx_eos]\<rparr>"

definition keywordPattern :: "jsstring list \<Rightarrow> pattern" where
  \<comment> \<open>\<open>/(?:k1|k2|...)(?:[:\s])*(?:\<rupee>|Rs\.?|INR|USD|\$)\s*([0-9,]+(?:\.[0-9]+)?)/gi\<close>\<close>
  "keywordPattern kws =
     \<lparr>before = rx_seq (rx_alt (map (rx_lit True) kws))
                (rx_seq (rx_star (\<lambda>c. c = 58 \<or> isWhiteSpace c))
                  (rx_seq (currencyRx True) (rx_star isWhiteSpace))),
      group1 = amountRx,
      after = rx_empty\<rparr>"

definition flightKeywords :: "jsstring list" where
  "flightKeywords = [js ''total'', js ''amount'', js ''fare'', js ''price'', js ''cost'']"

definition subscriptionKeywords :: "jsstring list" where
  "subscriptionKeywords =
     [js ''monthly'', js ''yearly'', js ''annual'', js ''subscription'', js ''plan'', js ''fee'']"

definition patterns :: "(jsstring \<times> pattern list) list" where
  \<comment> \<open>the object \<open>patterns\<close>, its keys in insertion order\<close>
  "patterns =
     [(js ''default'', [moneyPattern]),
      (js ''flight'', [keywordPattern flightKeywords, boundedMoneyPattern]),
      (js ''subscription'', [keywordPattern subscriptionKeywords, boundedMoneyPattern])]"

text \<open>
  A Number of JavaScript is an IEEE 754 double. The amounts of \<open>calculateSum\<close> are read
  from unsigned decimals and added up, so the values that occur are the finite doubles
  that are not negative, given by their exact value, and \<open>Infinity\<close>; NaN occurs only as
  the result of \<open>parseFloat\<close> and is its \<open>None\<close>. \<open>toDouble n d\<close> is the double nearest to
  \<open>n / d\<close>, ties to the even mantissa: with \<open>2 ^ e\<close> the power of two at or below
  \<open>n / d\<close>, the quotient is rounded to a multiple of \<open>2 ^ (e - 52)\<close>, of \<open>2 ^ - 1074\<close> for a
  subnormal, and what reaches \<open>2 ^ 1024\<close> is \<open>Infinity\<close>. Both \<open>parseFloat\<close> and \<open>+\<close> give
  the double nearest to the exact result (for a literal of more than 20 significant
  digits the language allows an engine to round a nearby decimal instead; V8 rounds the
  literal itself, as is done here).
\<close>

datatype number = Finite rat | PosInfinity

fun bitLength :: "nat \<Rightarrow> nat" where
  "bitLength n = (if n = 0 then 0 else Suc (bitLength (n div 2)))"

declare bitLength.simps [simp del]

definition pow2 :: "int \<Rightarrow> rat" where
  "pow2 k = (if k \<ge> 0 then 2 ^ nat k else 1 / 2 ^ nat (- k))"

definition toDouble :: "nat \<Rightarrow> nat \<Rightarrow> number" where
  "toDouble n d =
     (if n = 0 then Finite 0
      else
        (let s = int (bitLength n) - int (bitLength d);
             e = (if n * 2 ^ nat (- s) < d * 2 ^ nat s then s - 1 else s);
             k = max e (- 1022) - 52;
             num = n * 2 ^ nat (- k);
             den = d * 2 ^ nat k;
             q = num div den;
             r = num mod den;
             m = (if 2 * r < den \<or> (2 * r = den \<and> even q) then q else q + 1)
         in if of_nat m * pow2 k \<ge> 2 ^ 1024 then PosInfinity else Finite (of_nat m * pow2 k)))"

definition roundNumber :: "rat \<Rightarrow> number" where
  \<comment> \<open>the double nearest to a rational that is not negative\<close>
  "roundNumber x = (case quotient_of x of (p, q) \<Rightarrow> toDouble (nat p) (nat q))"

fun addNumber :: "number \<Rightarrow> number \<Rightarrow> number" where
  \<comment> \<open>\<open>x + y\<close> on Numbers that are not negative\<close>
  "addNumber (Finite x) (Finite y) = roundNumber (x + y)"
| "addNumber PosInfinity y = PosInfinity"
| "addNumber (Finite x) PosInfinity = PosInfinity"

definition digitsValue :: "jsstring \<Rightarrow> nat" where
  "digitsValue ds = foldl (\<lambda>v d. 10 * v + (d - 48)) 0 ds"

definition parseFloat :: "jsstring \<Rightarrow> number option" where
  \<comment> \<open>\<open>parseFloat\<close> on a string that starts with an unsigned decimal literal without
      exponent, or with none at all: the longest prefix \<open>digits\<close>, \<open>digits.\<close>,
      \<open>digits.digits\<close> or \<open>.digits\<close> is read, and \<open>None\<close> is NaN. The value is the double
      nearest to the decimal. Blanks, signs, exponents and \<open>Infinity\<close> are not read here:
      the capture group holds digits, commas and a point only.\<close>
  "parseFloat s =
     (let ds = takeWhile isDigit s;
          fs = (case drop (length ds) s of
                  [] \<Rightarrow> []
                | c # r \<Rightarrow> if c = 46 then takeWhile isDigit r else [])
      in if ds = [] \<and> fs = [] then None
         else Some (toDouble (digitsValue (ds @ fs)) (10 ^ length fs)))"

record detail =
  d_from :: jsstring
  d_subject :: jsstring
  d_date :: jsstring
  d_amount :: number
  d_currency :: jsstring
  d_text :: jsstring

record sum_state =
  total :: number
  details :: "detail list"
  currencyCounts :: "(jsstring \<times> nat) list"

definition bump :: "(jsstring \<times> nat) list \<Rightarrow> jsstring \<Rightarrow> (jsstring \<times> nat) list" where
  \<comment> \<open>\<open>currencyCounts[currency] = (currencyCounts[currency] || 0) + 1\<close>; a new key goes
      last, as \<open>Object.entries\<close> lists string keys in insertion order.\<close>
  "bump counts k =
     (if k \<in> fst ` set counts then map (\<lambda>(k', n). if k' = k then (k', n + 1) else (k', n)) counts
      else counts @ [(k, 1)])"

definition lineField :: "jsstring list \<Rightarrow> jsstring \<Rightarrow> nat \<Rightarrow> jsstring" where
  \<comment> \<open>\<open>lines.find(l => l.startsWith(tag))?.substring(n) || ''\<close>\<close>
  "lineField lines tag n = (case find (\<lambda>l. startsWith l tag) lines of None \<Rightarrow> [] | Some l \<Rightarrow> drop n l)"

definition currencyOf :: "jsstring \<Rightarrow> jsstring" where
  \<comment> \<open>\<open>(fullMatch.match(/\<rupee>|Rs\.?|INR|USD|\$/) || [''])[0]\<close>\<close>
  "currencyOf fullMatch =
     (case firstMatch (currencyRx False) fullMatch of None \<Rightarrow> [] | Some c \<Rightarrow> c)"

definition addMatch ::
  "jsstring \<Rightarrow> jsstring \<Rightarrow> jsstring \<Rightarrow> sum_state \<Rightarrow> (jsstring \<times> jsstring) \<Rightarrow> sum_state" where
  \<comment> \<open>the body of \<open>matches.forEach\<close>, on the whole match and its capture group 1\<close>
  "addMatch from subject date st mg =
     (let fullMatch = fst mg;
          currency = currencyOf fullMatch;
          counts = bump (currencyCounts st) currency;
          amount = filter (\<lambda>c. c \<noteq> 44) (snd mg)
      in case parseFloat amount of
           None \<Rightarrow> st\<lparr>currencyCounts := counts\<rparr>
         | Some parsedAmount \<Rightarrow>
             \<lparr>total = addNumber (total st) parsedAmount,
              details = details st @
                [\<lparr>d_from = from, d_subject = subject, d_date = date, d_amount = parsedAmount,
                  d_currency = currency, d_text = fullMatch\<rparr>],
              currencyCounts = counts\<rparr>)"

definition addEmail :: "pattern list \<Rightarrow> sum_state \<Rightarrow> jsstring \<Rightarrow> sum_state" where
  \<comment> \<open>the body of \<open>emails.forEach\<close>\<close>
  "addEmail relevantPatterns st email =
     (let lines = splitOn 10 email;
          from = lineField lines (js ''From:'') 6;
          subject = lineField lines (js ''Subject:'') 9;
          date = lineField lines (js ''Date:'') 6;
          content = lineField lines (js ''Content:'') 9;
          searchText = subject @ [32] @ content
      in foldl (\<lambda>st' pat. foldl (addMatch from subject date) st' (matchAll pat searchText))
           st relevantPatterns)"

fun dominant :: "(jsstring \<times> nat) list \<Rightarrow> nat \<Rightarrow> jsstring \<Rightarrow> jsstring" where
  \<comment> \<open>the loop over \<open>Object.entries(currencyCounts)\<close>, from \<open>maxCount\<close> and
      \<open>dominantCurrency\<close>\<close>
  "dominant [] maxCount dominantCurrency = dominantCurrency"
| "dominant ((currency, count) # rest) maxCount dominantCurrency =
     (if count > maxCount then dominant rest count currency
      else dominant rest maxCount dominantCurrency)"

definition categoryPatterns :: "(jsstring \<Rightarrow> jsstring) \<Rightarrow> jsstring \<Rightarrow> pattern list" where
  \<comment> \<open>\<open>patterns[categoryKey]\<close>; \<open>find\<close> returns one of the keys, so the lookup succeeds.\<close>
  "categoryPatterns lc category =
     (let categoryKey =
            (case find (\<lambda>key. includesStr (lc category) (lc key)) (map fst patterns) of
               None \<Rightarrow> js ''default'' | Some key \<Rightarrow> key)
      in case map_of patterns categoryKey of None \<Rightarrow> [] | Some ps \<Rightarrow> ps)"

definition sumEmails :: "(jsstring \<Rightarrow> jsstring) \<Rightarrow> jsstring list \<Rightarrow> jsstring \<Rightarrow> sum_state" where
  \<comment> \<open>\<open>total\<close>, \<open>details\<close> and \<open>currencyCounts\<close> when \<open>emails.forEach\<close> is over\<close>
  "sumEmails lc emails category =
     foldl (addEmail (categoryPatterns lc category))
       \<lparr>total = Finite 0, details = [], currencyCounts = []\<rparr> emails"

record sum_result =
  r_total :: number
  r_currency :: jsstring
  r_details :: "detail list"

definition calculateSum :: "(jsstring \<Rightarrow> jsstring) \<Rightarrow> jsstring list \<Rightarrow> jsstring \<Rightarrow> sum_result" where
  "calculateSum lc emails category =
     (let st = sumEmails lc emails category;
          dominantCurrency = dominant (currencyCounts st) 0 []
      in \<lparr>r_total = total st,
          r_currency = (if dominantCurrency \<noteq> [] then dominantCurrency else [8377]),
          r_details = details st\<rparr>)"

section \<open>Errors, the outside world and the session state\<close>

text \<open>
  A thrown value, with the fields the handlers of \<open>route.ts\<close> read: \<open>error.status\<close>,
  \<open>error.code\<close>, \<open>error.error?.type\<close>, \<open>error.message\<close> and
  \<open>error.errors?.[0]?.message\<close>.
\<close>

record js_error =
  e_status :: "nat option"
  e_code :: "nat option"
  e_type :: "jsstring option"
  e_message :: "jsstring option"
  e_detail :: "jsstring option"

definition Error :: "jsstring \<Rightarrow> js_error" where
  \<comment> \<open>\<open>new Error(message)\<close>\<close>
  "Error msg = \<lparr>e_status = None, e_code = None, e_type = None, e_message = Some msg, e_detail = None\<rparr>"

text \<open>
  The \<open>AgentPlan\<close> interface. \<open>final\<close> is a boolean or, in the shape
  \<open>{"final": {"finalAnswer": ...}}\<close>, an object that may carry \<open>finalAnswer\<close>;
  \<open>search\<close>, \<open>refine\<close> and \<open>sum\<close> are objects that may carry \<open>query\<close> or \<open>category\<close>.
\<close>

datatype final_field = FinalBool bool | FinalObject "jsstring option"

record agent_plan =
  p_action :: "jsstring option"
  p_query :: "jsstring option"
  p_finalAnswer :: "jsstring option"
  p_sumCategory :: "jsstring option"
  p_final :: "final_field option"
  p_search :: "jsstring option option"
  p_refine :: "jsstring option option"
  p_sum :: "jsstring option option"

definition truthy :: "jsstring option \<Rightarrow> bool" where
  \<comment> \<open>an optional string in a condition: absent and \<open>""\<close> are falsy\<close>
  "truthy v \<longleftrightarrow> (case v of None \<Rightarrow> False | Some t \<Rightarrow> t \<noteq> [])"

text \<open>
  The prompt \<open>callAgent\<close> builds, by the values it renders into the fixed text: the user
  query, the previous search terms, the email batch, whether the final-answer instruction
  or the iteration hint is appended, and how many times \<open>callAgentWithRetry\<close> has
  appended its "already searched" note.
\<close>

record prompt =
  pr_userQuery :: jsstring
  pr_previous :: "jsstring list"
  pr_emails :: "jsstring list"
  pr_forceFinal :: bool
  pr_iteration :: nat
  pr_notes :: nat

datatype api_outcome = ApiError js_error | NoTextBlock | TextBlock jsstring

text \<open>
  What the code calls and does not define: the platform (\<open>toLowerCase\<close>, the base64 and
  UTF-8 decoding of \<open>Buffer\<close>, \<open>JSON.parse\<close> read at the type \<open>AgentPlan\<close> with \<open>None\<close> its
  SyntaxError, \<open>toLocaleString\<close>, \<open>decodeURIComponent\<close>, \<open>Math.random\<close>), the reasoning
  service, the mail store and the identity provider. A service answers its n-th call, so
  that the same request may be answered differently each time. \<open>messages_list\<close> gives
  \<open>response.data.messages\<close> as message ids, \<open>None\<close> when the field is absent. \<open>mathRandom n\<close> is
  the value \<open>Math.random()\<close> takes in the \<open>catch\<close> block after the n-th call of the
  reasoning service.

  \<open>previousQueries\<close> is a variable of the module: every request the process serves reads
  and writes the same one. While this request waits for a service, another request may
  run, reset the variable and add its own queries. \<open>otherRequests n qs\<close> is what the
  variable holds when the n-th wait of this request is over, \<open>qs\<close> being what it held when
  the wait began; it is the identity when no other request runs.
\<close>

record env =
  toLowerCase :: "jsstring \<Rightarrow> jsstring"
  decodeBase64 :: "jsstring \<Rightarrow> jsstring"
  JSON_parse :: "jsstring \<Rightarrow> agent_plan option"
  toLocaleString :: "number \<Rightarrow> jsstring"
  decodeURIComponent :: "jsstring \<Rightarrow> js_error + jsstring"
  messages_create :: "nat \<Rightarrow> prompt \<Rightarrow> api_outcome"
  messages_list :: "nat \<Rightarrow> jsstring \<Rightarrow> js_error + jsstring list option"
  messages_get :: "nat \<Rightarrow> jsstring \<Rightarrow> js_error + raw_message"
  refreshAccessToken :: "jsstring \<Rightarrow> js_error + unit"
  mathRandom :: "nat \<Rightarrow> real"
  otherRequests :: "nat \<Rightarrow> jsstring list \<Rightarrow> jsstring list"

datatype event =
  Create prompt
| Repeated jsstring
| Backoff nat real
| Exhausted
| ListMessages jsstring
| GetMessage jsstring
| SearchEmails jsstring
| AgentAction jsstring jsstring
| Iteration nat

text \<open>
  The mutable state: the module variable \<open>previousQueries\<close> (a Set, in insertion order),
  the number of calls made so far to each service, and a trace of what was done: each
  call of the reasoning service with its prompt, each reply turned down because its
  query was tried before, each backoff sleep with the value of \<open>retries\<close> and the delay
  in milliseconds, the give-up after the last overloaded attempt, each list and get call
  of the mail store, each call of \<open>searchEmails\<close>, each search or refine action the loop
  dispatches (its \<open>Agent action ... with query\<close> log line) and each pass of the loop.
\<close>

record world =
  previousQueries :: "jsstring list"
  api_calls :: nat
  gmail_calls :: nat
  trace :: "event list"

definition emit :: "event \<Rightarrow> world \<Rightarrow> world" where
  "emit ev w = w\<lparr>trace := trace w @ [ev]\<rparr>"

definition resume :: "env \<Rightarrow> world \<Rightarrow> world" where
  \<comment> \<open>the end of the wait for a service call, which the counters have counted: the
      other requests have had their turn. The sleep of a backoff is followed by a call
      of the reasoning service before \<open>previousQueries\<close> is read again, and what happens
      during the sleep is part of what \<open>otherRequests\<close> gives for that call.\<close>
  "resume E w =
     w\<lparr>previousQueries := otherRequests E (api_calls w + gmail_calls w) (previousQueries w)\<rparr>"

section \<open>Search Executor: \<open>searchEmails\<close>\<close>

definition operatorNames :: "jsstring list" where
  "operatorNames =
     [js ''newer_than'', js ''older_than'', js ''after'', js ''before'', js ''from'', js ''to'',
      js ''subject'', js ''in'', js ''has'', js ''is'', js ''label'']"

definition operatorPattern :: pattern where
  \<comment> \<open>\<open>/(newer_than|older_than|after|before|from|to|subject|in|has|is|label):[^\s]+/g\<close>\<close>
  "operatorPattern =
     \<lparr>before = rx_empty,
      group1 = rx_alt (map (rx_lit False) operatorNames),
      after = rx_seq (rx_char False 58) (rx_plus (\<lambda>c. \<not> isWhiteSpace c))\<rparr>"

definition tier1Query :: "jsstring \<Rightarrow> jsstring" where
  \<comment> \<open>\<open>searchQuery\<close>: the query itself when \<open>operators\<close> is not empty, else in quotes\<close>
  "tier1Query query =
     (let operators = matchAll operatorPattern query
      in if length operators > 0 then query else [34] @ query @ [34])"

definition tier2Query :: "jsstring \<Rightarrow> jsstring" where
  \<comment> \<open>\<open>searchTerms\<close>: \<open>query.replace(/[():"]/g, ' ').split(' ').filter(term => term.length > 1).join(' OR ')\<close>\<close>
  "tier2Query query =
     (let cleanQuery = map (\<lambda>c. if c = 40 \<or> c = 41 \<or> c = 58 \<or> c = 34 then 32 else c) query
      in joinWith (js '' OR '') (filter (\<lambda>term. length term > 1) (splitOn 32 cleanQuery)))"

definition listMessages :: "env \<Rightarrow> jsstring \<Rightarrow> world \<Rightarrow> (js_error + jsstring list option) \<times> world" where
  \<comment> \<open>\<open>await gmail.users.messages.list({userId: "me", q: q, maxResults: 8})\<close>\<close>
  "listMessages E q w =
     (messages_list E (gmail_calls w) q,
      resume E (emit (ListMessages q) (w\<lparr>gmail_calls := gmail_calls w + 1\<rparr>)))"

definition getMessage :: "env \<Rightarrow> jsstring \<Rightarrow> world \<Rightarrow> (js_error + raw_message) \<times> world" where
  \<comment> \<open>\<open>await gmail.users.messages.get({userId: "me", id: id, format: "full"})\<close>\<close>
  "getMessage E i w =
     (messages_get E (gmail_calls w) i,
      resume E (emit (GetMessage i) (w\<lparr>gmail_calls := gmail_calls w + 1\<rparr>)))"

fun fetchMessages ::
  "env \<Rightarrow> jsstring list \<Rightarrow> jsstring list \<Rightarrow> jsstring list \<Rightarrow> world \<Rightarrow> (js_error + jsstring list) \<times> world" where
  \<comment> \<open>the \<open>for\<close> loop over \<open>response.data.messages\<close>, from \<open>processedIds\<close> and \<open>emails\<close>\<close>
  "fetchMessages E [] processedIds emails w = (Inr emails, w)"
| "fetchMessages E (i # ids) processedIds emails w =
     (if i \<in> set processedIds then fetchMessages E ids processedIds emails w
      else (case getMessage E i w of
              (Inl err, w') \<Rightarrow> (Inl err, w')
            | (Inr email, w') \<Rightarrow>
                (let emails' = emails @ [parseEmailData (decodeBase64 E) email]
                 in if length emails' \<ge> 5 then (Inr emails', w')
                    else fetchMessages E ids (processedIds @ [i]) emails' w')))"

definition searchEmails :: "env \<Rightarrow> jsstring \<Rightarrow> world \<Rightarrow> (js_error + jsstring list) \<times> world" where
  "searchEmails E query w0 =
     (let w = emit (SearchEmails query) w0
      in case listMessages E (tier1Query query) w of
           (Inl err, w1) \<Rightarrow> (Inl err, w1)
         | (Inr (Some ids), w1) \<Rightarrow> fetchMessages E ids [] [] w1
         | (Inr None, w1) \<Rightarrow>
             (case listMessages E (tier2Query query) w1 of
                (Inl err, w2) \<Rightarrow> (Inl err, w2)
              | (Inr None, w2) \<Rightarrow> (Inr [], w2)
              | (Inr (Some ids), w2) \<Rightarrow> fetchMessages E ids [] [] w2))"

section \<open>Reasoning Gateway: \<open>callAgentWithRetry\<close> and \<open>callAgent\<close>\<close>

definition isOverloaded :: "js_error \<Rightarrow> bool" where
  "isOverloaded error \<longleftrightarrow>
     e_status error = Some 529 \<or>
     e_type error = Some (js ''overloaded_error'') \<or>
     (case e_message error of None \<Rightarrow> False
      | Some m \<Rightarrow> m \<noteq> [] \<and> includesStr m (js ''Overloaded''))"

definition backoffDelay :: "nat \<Rightarrow> real \<Rightarrow> real" where
  \<comment> \<open>\<open>Math.min(1000 * Math.pow(2, retries) + Math.random() * 1000, 10000)\<close>, in
      milliseconds, \<open>random\<close> being the value of \<open>Math.random()\<close>. The value is the exact
      one; the product and the sum are each rounded to a double in the code, which moves
      the delay by less than a millionth of a millisecond and leaves it between the
      bounds stated below, which are doubles.\<close>
  "backoffDelay retries random = min (1000 * 2 ^ retries + random * 1000) 10000"

definition apologyAnswer :: jsstring where
  "apologyAnswer = js ''I'm having trouble processing your request. Based on the available information, I couldn't determine a specific answer.''"

definition exhaustedPlan :: agent_plan where
  \<comment> \<open>the plan returned when the retries are exhausted\<close>
  "exhaustedPlan =
     \<lparr>p_action = Some (js ''final''), p_query = None, p_finalAnswer = Some apologyAnswer,
      p_sumCategory = None, p_final = None, p_search = None, p_refine = None, p_sum = None\<rparr>"

definition attempt :: "env \<Rightarrow> prompt \<Rightarrow> nat \<Rightarrow> js_error + agent_plan" where
  \<comment> \<open>the \<open>try\<close> block down to \<open>parseAgentResponse\<close>, on the n-th call of the service\<close>
  "attempt E p n =
     (case messages_create E n p of
        ApiError error \<Rightarrow> Inl error
      | NoTextBlock \<Rightarrow> Inl (Error (js ''No text content in agent response''))
      | TextBlock text \<Rightarrow>
          (case JSON_parse E (trim text) of
             None \<Rightarrow> Inl (Error (js ''Failed to parse agent response as JSON: '' @ trim text))
           | Some plan \<Rightarrow> Inr plan))"

definition searchQuery :: "agent_plan \<Rightarrow> jsstring option" where
  \<comment> \<open>\<open>plan.query\<close> when \<open>(plan.action === "search" || plan.action === "refine") &&
      plan.query\<close> holds\<close>
  "searchQuery plan =
     (if (p_action plan = Some (js ''search'') \<or> p_action plan = Some (js ''refine'')) \<and>
         truthy (p_query plan)
      then p_query plan else None)"

definition applyForceFinal :: "bool \<Rightarrow> agent_plan \<Rightarrow> agent_plan" where
  "applyForceFinal forceFinal plan =
     (if forceFinal \<and> p_action plan \<noteq> Some (js ''final'')
      then plan\<lparr>p_action := Some (js ''final''),
                p_finalAnswer :=
                  (if truthy (p_finalAnswer plan) then p_finalAnswer plan
                   else Some (js ''Based on the available emails, I couldn't find specific information about your query. Please try a different search term.''))\<rparr>
      else plan)"

text \<open>
  One function for the \<open>while\<close> loop and for the call of itself: a pass of the loop is
  the call with \<open>retries + 1\<close>, and \<open>return callAgentWithRetry(prompt + note, maxRetries -
  retries, forceFinal)\<close> is the call with the new prompt, the remaining budget and
  \<open>retries = 0\<close>. That \<open>return\<close> has no \<open>await\<close>, so what the inner call throws is not
  caught by this \<open>try\<close>. The service may repeat a previous query for ever, and then the
  function does not return. The first argument bounds the calls of the reasoning service
  that one call of the gateway is followed through: when it is used up the result is
  \<open>None\<close>, with the world as it is then, and the run is still going on. A run that returns
  does so for every bound large enough; a run that does not return is seen through all
  its beginnings.
\<close>

fun callAgentWithRetry ::
  "nat \<Rightarrow> env \<Rightarrow> prompt \<Rightarrow> nat \<Rightarrow> bool \<Rightarrow> nat \<Rightarrow> world \<Rightarrow> (js_error + agent_plan) option \<times> world" where
  "callAgentWithRetry 0 E p maxRetries forceFinal retries w =
     (if \<not> retries < maxRetries then (Some (Inr exhaustedPlan), w) else (None, w))"
| "callAgentWithRetry (Suc fuel) E p maxRetries forceFinal retries w =
     (if \<not> retries < maxRetries then (Some (Inr exhaustedPlan), w)
      else
        (let w1 = resume E (emit (Create p) (w\<lparr>api_calls := api_calls w + 1\<rparr>))
         in case attempt E p (api_calls w) of
              Inr plan \<Rightarrow>
                (case searchQuery plan of
                   Some q \<Rightarrow>
                     (if toLowerCase E q \<in> set (previousQueries w1)
                      then callAgentWithRetry fuel E (p\<lparr>pr_notes := pr_notes p + 1\<rparr>)
                             (maxRetries - retries) forceFinal 0 (emit (Repeated q) w1)
                      else (Some (Inr (applyForceFinal forceFinal plan)),
                            w1\<lparr>previousQueries := previousQueries w1 @ [toLowerCase E q]\<rparr>))
                 | None \<Rightarrow> (Some (Inr (applyForceFinal forceFinal plan)), w1))
            | Inl error \<Rightarrow>
                (if \<not> isOverloaded error then (Some (Inl error), w1)
                 else if retries + 1 \<ge> maxRetries then (Some (Inr exhaustedPlan), emit Exhausted w1)
                 else callAgentWithRetry fuel E p maxRetries forceFinal (retries + 1)
                        (emit (Backoff (retries + 1)
                                (backoffDelay (retries + 1) (mathRandom E (api_calls w)))) w1))))"

definition callAgent ::
  "nat \<Rightarrow> env \<Rightarrow> jsstring \<Rightarrow> jsstring list option \<Rightarrow> bool \<Rightarrow> nat \<Rightarrow> world \<Rightarrow>
   (js_error + agent_plan) option \<times> world" where
  "callAgent fuel E userQuery emailBatch forceFinal iteration w =
     callAgentWithRetry fuel E
       \<lparr>pr_userQuery = userQuery, pr_previous = previousQueries w,
        pr_emails = (case emailBatch of None \<Rightarrow> [] | Some b \<Rightarrow> b),
        pr_forceFinal = forceFinal, pr_iteration = iteration, pr_notes = 0\<rparr>
       3 forceFinal 0 w"

section \<open>Agent Loop: \<open>agentSolveQuery\<close>\<close>

definition normalizePlan :: "agent_plan \<Rightarrow> agent_plan" where
  \<comment> \<open>the four rewrites at the head of an iteration, in the order of the source\<close>
  "normalizePlan plan0 =
     (let plan1 = (if p_final plan0 = Some (FinalBool True) \<and> \<not> truthy (p_action plan0)
                   then plan0\<lparr>p_action := Some (js ''final'')\<rparr> else plan0);
          plan2 = (case p_search plan1 of
                     Some (Some q) \<Rightarrow>
                       if q \<noteq> [] \<and> \<not> truthy (p_action plan1)
                       then plan1\<lparr>p_action := Some (js ''search''), p_query := Some q\<rparr> else plan1
                   | _ \<Rightarrow> plan1);
          plan3 = (case p_refine plan2 of
                     Some (Some q) \<Rightarrow>
                       if q \<noteq> [] \<and> \<not> truthy (p_action plan2)
                       then plan2\<lparr>p_action := Some (js ''refine''), p_query := Some q\<rparr> else plan2
                   | _ \<Rightarrow> plan2);
          plan4 = (case p_final plan3 of
                     Some (FinalObject (Some a)) \<Rightarrow>
                       if \<not> truthy (p_action plan3)
                       then plan3\<lparr>p_action := Some (js ''final''), p_finalAnswer := Some a\<rparr> else plan3
                   | _ \<Rightarrow> plan3)
      in plan4)"

record answer =
  a_answer :: jsstring
  a_emails :: "jsstring list"

record loop_state =
  currentEmails :: "jsstring list option"
  allProcessedEmails :: "jsstring list"

datatype outcome =
  Continue loop_state world | Return answer world | Throw js_error world | Running world

definition orDefault :: "jsstring option \<Rightarrow> jsstring \<Rightarrow> jsstring" where
  \<comment> \<open>\<open>a || b\<close> on an optional string\<close>
  "orDefault a b = (case a of None \<Rightarrow> b | Some t \<Rightarrow> if t = [] then b else t)"

definition noEmails :: "jsstring list option \<Rightarrow> bool" where
  \<comment> \<open>\<open>!currentEmails || currentEmails.length === 0\<close>\<close>
  "noEmails es \<longleftrightarrow> (case es of None \<Rightarrow> True | Some l \<Rightarrow> length l = 0)"

definition dispatch :: "env \<Rightarrow> agent_plan \<Rightarrow> loop_state \<Rightarrow> world \<Rightarrow> outcome" where
  \<comment> \<open>the \<open>if\<close> chain on \<open>plan.action\<close>\<close>
  "dispatch E plan st w =
     (if p_action plan = Some (js ''search'') \<or> p_action plan = Some (js ''refine'') then
        (if \<not> truthy (p_query plan)
         then Throw (Error (js ''Agent plan missing 'query' for search/refine action.'')) w
         else (case searchEmails E (orDefault (p_query plan) [])
                      (emit (AgentAction (orDefault (p_action plan) []) (orDefault (p_query plan) [])) w) of
                 (Inl err, w') \<Rightarrow> Throw err w'
               | (Inr searchResults, w') \<Rightarrow>
                   (let allProcessed = allProcessedEmails st @ searchResults
                    in Continue
                         \<lparr>currentEmails =
                            (if length searchResults = 0 \<and> length allProcessed > 0
                             then Some (take 5 allProcessed) else Some searchResults),
                          allProcessedEmails = allProcessed\<rparr> w')))
      else if p_action plan = Some (js ''sum'') then
        (case (if noEmails (currentEmails st)
               then searchEmails E
                      (orDefault (p_sumCategory plan) (orDefault (p_query plan) (js ''default''))) w
               else (Inr (case currentEmails st of None \<Rightarrow> [] | Some es \<Rightarrow> es), w)) of
           (Inl err, w') \<Rightarrow> Throw err w'
         | (Inr emails, w') \<Rightarrow>
             (let category =
                    orDefault (p_sumCategory plan)
                      (orDefault (case p_sum plan of None \<Rightarrow> None | Some c \<Rightarrow> c) (js ''default''));
                  sumResult = calculateSum (toLowerCase E) emails category;
                  formattedSum =
                    js ''Based on the emails, the total '' @ category @ js '' amount is '' @
                    r_currency sumResult @ toLocaleString E (r_total sumResult)
              in Continue
                   (st\<lparr>currentEmails := Some ((js ''CALCULATED SUM: '' @ formattedSum) # emails)\<rparr>)
                   w'))
      else if p_action plan = Some (js ''final'') then
        (case p_finalAnswer plan of
           None \<Rightarrow> Throw (Error (js ''Agent returned final action but no finalAnswer provided.'')) w
         | Some finalAnswer \<Rightarrow>
             if finalAnswer \<noteq> []
             then Return \<lparr>a_answer = finalAnswer,
                          a_emails = (case currentEmails st of None \<Rightarrow> [] | Some es \<Rightarrow> es)\<rparr> w
             else Throw (Error (js ''Agent returned final action but no finalAnswer provided.'')) w)
      else Throw (Error (js ''Unrecognized action from agent: '' @
                          (case p_action plan of None \<Rightarrow> js ''undefined'' | Some a \<Rightarrow> a))) w)"

definition maxIterations :: nat where
  "maxIterations = 5"

definition fallback :: "loop_state \<Rightarrow> loop_state" where
  \<comment> \<open>the head of a pass: without current emails, the first five of all those seen\<close>
  "fallback st =
     (if noEmails (currentEmails st) \<and> length (allProcessedEmails st) > 0
      then st\<lparr>currentEmails := Some (take 5 (allProcessedEmails st))\<rparr> else st)"

definition iteration :: "nat \<Rightarrow> env \<Rightarrow> jsstring \<Rightarrow> nat \<Rightarrow> loop_state \<Rightarrow> world \<Rightarrow> outcome" where
  \<comment> \<open>the body of the \<open>while\<close> loop before \<open>iterations++\<close>; \<open>Running\<close> when \<open>callAgent\<close>
      has not returned within the bound\<close>
  "iteration fuel E userQuery iterations st w0 =
     (let w = emit (Iteration (iterations + 1)) w0;
          forceFinal = (iterations = maxIterations - 1);
          st1 = fallback st
      in case callAgent fuel E userQuery (currentEmails st1) forceFinal (iterations + 1) w of
           (None, w') \<Rightarrow> Running w'
         | (Some (Inl err), w') \<Rightarrow> Throw err w'
         | (Some (Inr plan), w') \<Rightarrow> dispatch E (normalizePlan plan) st1 w')"

function agentLoop ::
  "nat \<Rightarrow> env \<Rightarrow> jsstring \<Rightarrow> nat \<Rightarrow> loop_state \<Rightarrow> world \<Rightarrow> (js_error + answer) option \<times> world" where
  "agentLoop fuel E userQuery iterations st w =
     (if iterations < maxIterations then
        (case iteration fuel E userQuery iterations st w of
           Running w' \<Rightarrow> (None, w')
         | Continue st' w' \<Rightarrow> agentLoop fuel E userQuery (iterations + 1) st' w'
         | Return a w' \<Rightarrow> (Some (Inr a), w')
         | Throw err w' \<Rightarrow> (Some (Inl err), w'))
      else if length (allProcessedEmails st) > 0 then
        (Some (Inr
          \<lparr>a_answer = js ''I found some potentially relevant emails but couldn't determine a specific answer. Please review these emails for the information you're looking for.'',
           a_emails = take 5 (allProcessedEmails st)\<rparr>), w)
      else (Some (Inl (Error (js ''Agent failed to provide a final answer after multiple iterations.''))), w))"
  by pat_completeness auto
termination
  by (relation "measure (\<lambda>(fuel, E, q, i, st, w). maxIterations - i)") auto

declare agentLoop.simps [simp del]

definition agentSolveQuery ::
  "nat \<Rightarrow> env \<Rightarrow> jsstring \<Rightarrow> world \<Rightarrow> (js_error + answer) option \<times> world" where
  \<comment> \<open>\<open>previousQueries = new Set()\<close>, then the loop from \<open>iterations = 0\<close>\<close>
  "agentSolveQuery fuel E userQuery w =
     agentLoop fuel E userQuery 0 \<lparr>currentEmails = None, allProcessedEmails = []\<rparr>
       (w\<lparr>previousQueries := []\<rparr>)"

section \<open>The query endpoint: \<open>POST\<close>\<close>

record token =
  accessToken :: "jsstring option"
  refreshToken :: "jsstring option"

record request_body =
  rq_query :: jsstring
  rq_token :: "token option"

text \<open>
  A response of \<open>NextResponse.json\<close>: the status (200 when none is given) and the fields
  of the JSON body, each present or absent.
\<close>

record response =
  status :: nat
  b_answer :: "jsstring option"
  b_emails :: "jsstring list option"
  b_error :: "jsstring option"
  b_message :: "jsstring option"

definition errorResponse :: "js_error \<Rightarrow> response" where
  \<comment> \<open>the \<open>catch\<close> block of \<open>POST\<close>\<close>
  "errorResponse error =
     (if e_code error = Some 403 \<and>
         (case e_detail error of None \<Rightarrow> False | Some m \<Rightarrow> includesStr m (js ''Metadata scope''))
      then \<lparr>status = 403,
            b_answer = Some (js ''Authentication error: Please re-authenticate with full email access permissions.''),
            b_emails = None, b_error = Some (js ''Insufficient OAuth scopes''), b_message = None\<rparr>
      else \<lparr>status = 500,
            b_answer = Some (js ''An error occurred while processing your query.''),
            b_emails = None, b_error = e_message error, b_message = None\<rparr>)"

definition POST :: "nat \<Rightarrow> env \<Rightarrow> js_error + request_body \<Rightarrow> world \<Rightarrow> response option \<times> world" where
  \<comment> \<open>\<open>req\<close> is what \<open>await req.json()\<close> gives, or what it throws; no response yet when
      \<open>agentSolveQuery\<close> has not returned within the bound\<close>
  "POST fuel E req w =
     (case req of
        Inl err \<Rightarrow> (Some (errorResponse err), w)
      | Inr body \<Rightarrow>
          (case rq_token body of
             None \<Rightarrow>
               (Some \<lparr>status = 401, b_answer = None, b_emails = None, b_error = None,
                      b_message = Some (js ''Authentication required'')\<rparr>, w)
           | Some tok \<Rightarrow>
               (if \<not> truthy (refreshToken tok)
                then (Some (errorResponse (Error (js ''Refresh token is missing!''))), w)
                else (case decodeURIComponent E (orDefault (refreshToken tok) []) of
                        Inl err \<Rightarrow> (Some (errorResponse err), w)
                      | Inr refresh_token \<Rightarrow>
                          (if refresh_token = []
                           then (Some (errorResponse (Error
                                  (js ''Refresh token is still missing after setting credentials.''))), w)
                           else (case refreshAccessToken E refresh_token of
                                   Inl err \<Rightarrow> (Some (errorResponse err), w)
                                 | Inr _ \<Rightarrow>
                                     (case agentSolveQuery fuel E (rq_query body) w of
                                        (None, w') \<Rightarrow> (None, w')
                                      | (Some (Inl err), w') \<Rightarrow> (Some (errorResponse err), w')
                                      | (Some (Inr result), w') \<Rightarrow>
                                          (Some \<lparr>status = 200, b_answer = Some (a_answer result),
                                                 b_emails = Some (a_emails result), b_error = None,
                                                 b_message = None\<rparr>, w'))))))))"

section \<open>Notions of the specification, observations and fixtures\<close>

definition containsOperator :: "jsstring \<Rightarrow> bool" where
  \<comment> \<open>the words of the specification: the query contains a recognized field operator,
      that is one of the operator names, a colon and a value that starts with a
      non-blank code unit\<close>
  "containsOperator query \<longleftrightarrow>
     (\<exists>pre name v post. query = pre @ name @ [58] @ [v] @ post \<and>
        name \<in> set operatorNames \<and> \<not> isWhiteSpace v)"

definition listQueries :: "event list \<Rightarrow> jsstring list" where
  \<comment> \<open>the queries sent to the mail store's list call, in order\<close>
  "listQueries tr = concat (map (\<lambda>ev. case ev of ListMessages q \<Rightarrow> [q] | _ \<Rightarrow> []) tr)"

definition overloads :: "event list \<Rightarrow> nat" where
  \<comment> \<open>the attempts that failed with the overload signal: each is followed by a backoff
      sleep or, the last one, by giving up\<close>
  "overloads tr =
     length (filter (\<lambda>ev. case ev of Backoff k d \<Rightarrow> True | Exhausted \<Rightarrow> True | _ \<Rightarrow> False) tr)"

definition attempts :: "event list \<Rightarrow> nat" where
  \<comment> \<open>the calls made to the reasoning service\<close>
  "attempts tr = length (filter (\<lambda>ev. case ev of Create p \<Rightarrow> True | _ \<Rightarrow> False) tr)"

definition repeats :: "event list \<Rightarrow> nat" where
  \<comment> \<open>the replies turned down because their query had been tried before\<close>
  "repeats tr = length (filter (\<lambda>ev. case ev of Repeated q \<Rightarrow> True | _ \<Rightarrow> False) tr)"

definition backoffs :: "event list \<Rightarrow> (nat \<times> real) list" where
  \<comment> \<open>the backoff sleeps, in order: the value of \<open>retries\<close> and the delay\<close>
  "backoffs tr = concat (map (\<lambda>ev. case ev of Backoff k d \<Rightarrow> [(k, d)] | _ \<Rightarrow> []) tr)"

definition passes :: "event list \<Rightarrow> nat list" where
  \<comment> \<open>the passes of the agent loop, by their iteration number\<close>
  "passes tr = concat (map (\<lambda>ev. case ev of Iteration n \<Rightarrow> [n] | _ \<Rightarrow> []) tr)"

definition searchActions :: "event list \<Rightarrow> jsstring list" where
  \<comment> \<open>the queries of the search and refine actions the loop dispatched\<close>
  "searchActions tr = concat (map (\<lambda>ev. case ev of AgentAction a q \<Rightarrow> [q] | _ \<Rightarrow> []) tr)"

fun worldOf :: "outcome \<Rightarrow> world" where
  "worldOf (Continue st w) = w"
| "worldOf (Return a w) = w"
| "worldOf (Throw e w) = w"
| "worldOf (Running w) = w"

definition isSearchAction :: "agent_plan \<Rightarrow> bool" where
  \<comment> \<open>the plan is dispatched as a search: tagged \<open>search\<close> or \<open>refine\<close>, with a query\<close>
  "isSearchAction plan \<longleftrightarrow>
     (p_action plan = Some (js ''search'') \<or> p_action plan = Some (js ''refine'')) \<and>
     truthy (p_query plan)"

definition emptyPlan :: agent_plan where
  \<comment> \<open>the object \<open>{}\<close>\<close>
  "emptyPlan = \<lparr>p_action = None, p_query = None, p_finalAnswer = None, p_sumCategory = None,
      p_final = None, p_search = None, p_refine = None, p_sum = None\<rparr>"

definition searchPlan :: "jsstring \<Rightarrow> agent_plan" where
  \<comment> \<open>\<open>{"action": "search", "query": q}\<close>\<close>
  "searchPlan q = emptyPlan\<lparr>p_action := Some (js ''search''), p_query := Some q\<rparr>"

definition finalPlan :: "jsstring \<Rightarrow> agent_plan" where
  \<comment> \<open>\<open>{"action": "final", "finalAnswer": a}\<close>\<close>
  "finalPlan a = emptyPlan\<lparr>p_action := Some (js ''final''), p_finalAnswer := Some a\<rparr>"

definition finalFlagPlan :: "jsstring \<Rightarrow> agent_plan" where
  \<comment> \<open>\<open>{"final": true, "finalAnswer": a}\<close>\<close>
  "finalFlagPlan a = emptyPlan\<lparr>p_final := Some (FinalBool True), p_finalAnswer := Some a\<rparr>"

definition nestedSearchPlan :: "jsstring \<Rightarrow> agent_plan" where
  \<comment> \<open>\<open>{"search": {"query": q}}\<close>\<close>
  "nestedSearchPlan q = emptyPlan\<lparr>p_search := Some (Some q)\<rparr>"

definition nestedRefinePlan :: "jsstring \<Rightarrow> agent_plan" where
  \<comment> \<open>\<open>{"refine": {"query": q}}\<close>\<close>
  "nestedRefinePlan q = emptyPlan\<lparr>p_refine := Some (Some q)\<rparr>"

definition nestedFinalPlan :: "jsstring \<Rightarrow> agent_plan" where
  \<comment> \<open>\<open>{"final": {"finalAnswer": a}}\<close>\<close>
  "nestedFinalPlan a = emptyPlan\<lparr>p_final := Some (FinalObject (Some a))\<rparr>"

definition noNestedQueries :: "env \<Rightarrow> bool" where
  \<comment> \<open>no reply of the reasoning service has a nested \<open>search\<close> or \<open>refine\<close> object\<close>
  "noNestedQueries E \<longleftrightarrow>
     (\<forall>n p plan. attempt E p n = Inr plan \<longrightarrow> p_search plan = None \<and> p_refine plan = None)"

definition noRepeatedQuery :: "env \<Rightarrow> world \<Rightarrow> bool" where
  \<comment> \<open>no reply of the reasoning service asks for a query tried before\<close>
  "noRepeatedQuery E w \<longleftrightarrow>
     (\<forall>n p plan q. attempt E p n = Inr plan \<longrightarrow> searchQuery plan = Some q \<longrightarrow>
        toLowerCase E q \<notin> set (previousQueries w))"

definition alwaysOverloaded :: "env \<Rightarrow> bool" where
  \<comment> \<open>every call of the reasoning service fails with the overload signal\<close>
  "alwaysOverloaded E \<longleftrightarrow>
     (\<forall>n p. \<exists>error. messages_create E n p = ApiError error \<and> isOverloaded error)"

definition world0 :: world where
  "world0 = \<lparr>previousQueries = [], api_calls = 0, gmail_calls = 0, trace = []\<rparr>"

definition testEnv ::
  "(nat \<Rightarrow> prompt \<Rightarrow> api_outcome) \<Rightarrow> (jsstring \<Rightarrow> agent_plan option) \<Rightarrow>
   (nat \<Rightarrow> jsstring \<Rightarrow> js_error + jsstring list option) \<Rightarrow> env" where
  \<comment> \<open>an environment on ASCII text, from a reasoning service, a reading of its replies
      and a mail store; every message of the store is empty, \<open>Math.random()\<close> is always
      \<open>0.5\<close> and no other request runs\<close>
  "testEnv create parse list =
     \<lparr>toLowerCase = asciiLower, decodeBase64 = (\<lambda>t. t), JSON_parse = parse,
      toLocaleString = (\<lambda>x. []), decodeURIComponent = (\<lambda>t. Inr t),
      messages_create = create, messages_list = list,
      messages_get = (\<lambda>n i. Inr \<lparr>payload = None, snippet = None\<rparr>),
      refreshAccessToken = (\<lambda>t. Inr ()),
      mathRandom = (\<lambda>n. 1 / 2), otherRequests = (\<lambda>n qs. qs)\<rparr>"


definition aliceEnv :: env where
  \<comment> \<open>a mail store that answers with a message the query \<open>mail from:alice\<close> as it
      stands and the query \<open>hello world\<close> in double quotes, and nothing else\<close>
  "aliceEnv =
     testEnv (\<lambda>n p. NoTextBlock) (\<lambda>t. None)
       (\<lambda>n q. if q = js ''mail from:alice'' \<or> q = [34] @ js ''hello world'' @ [34]
              then Inr (Some [js ''m1'']) else Inr None)"

definition emptyBlock :: jsstring where
  \<comment> \<open>the block of a message without payload and snippet\<close>
  "emptyBlock =
     js ''From: Unknown Sender'' @ [10] @ js ''Subject: No Subject'' @ [10] @
     js ''Date: No Date'' @ [10] @ js ''Content: No content available''"

definition scriptEnv :: "(nat \<Rightarrow> agent_plan) \<Rightarrow> env" where
  \<comment> \<open>a reasoning service whose n-th reply is the text of n + 1 letters \<open>x\<close>, read as
      the plan \<open>script n\<close>, with a mail store that has no message\<close>
  "scriptEnv script =
     testEnv (\<lambda>n p. TextBlock (replicate (n + 1) 120))
       (\<lambda>t. if t \<noteq> [] \<and> set t \<subseteq> {120} then Some (script (length t - 1)) else None)
       (\<lambda>n q. Inr None)"

definition overloadedEnv :: env where
  \<comment> \<open>a reasoning service that answers every call with status 529\<close>
  "overloadedEnv =
     testEnv (\<lambda>n p. ApiError \<lparr>e_status = Some 529, e_code = None, e_type = None,
                               e_message = None, e_detail = None\<rparr>)
       (\<lambda>t. None) (\<lambda>n q. Inr None)"

definition brokenEnv :: env where
  \<comment> \<open>a reasoning service that answers every call with status 500\<close>
  "brokenEnv =
     testEnv (\<lambda>n p. ApiError \<lparr>e_status = Some 500, e_code = None, e_type = None,
                               e_message = None, e_detail = None\<rparr>)
       (\<lambda>t. None) (\<lambda>n q. Inr None)"

definition prompt0 :: prompt where
  "prompt0 = \<lparr>pr_userQuery = js ''trips'', pr_previous = [js ''flights''], pr_emails = [],
      pr_forceFinal = False, pr_iteration = 2, pr_notes = 0\<rparr>"

definition repeatScript :: "nat \<Rightarrow> agent_plan" where
  \<comment> \<open>three times a search for \<open>flights\<close>, then a search for \<open>hotels\<close>\<close>
  "repeatScript n = (if n < 3 then searchPlan (js ''flights'') else searchPlan (js ''hotels''))"

definition nestedScript :: "nat \<Rightarrow> agent_plan" where
  \<comment> \<open>twice \<open>{"search": {"query": "foo"}}\<close>, then a final answer\<close>
  "nestedScript n = (if n < 2 then nestedSearchPlan (js ''foo'') else finalPlan (js ''done''))"

definition taggedScript :: "nat \<Rightarrow> agent_plan" where
  \<comment> \<open>twice a search for \<open>flights\<close>, a search for \<open>hotels\<close>, then a final answer\<close>
  "taggedScript n =
     (if n < 2 then searchPlan (js ''flights'')
      else if n = 2 then searchPlan (js ''hotels'') else finalPlan (js ''done''))"

definition searchTextOf :: "jsstring \<Rightarrow> jsstring" where
  \<comment> \<open>the \<open>searchText\<close> that \<open>calculateSum\<close> builds for one message block\<close>
  "searchTextOf email =
     (let lines = splitOn 10 email
      in lineField lines (js ''Subject:'') 9 @ [32] @ lineField lines (js ''Content:'') 9)"

definition allMatches :: "pattern list \<Rightarrow> jsstring list \<Rightarrow> (jsstring \<times> jsstring) list" where
  \<comment> \<open>every match (whole match and capture group 1) in the order \<open>calculateSum\<close> visits them\<close>
  "allMatches ps emails =
     concat (map (\<lambda>email. concat (map (\<lambda>pat. matchAll pat (searchTextOf email)) ps)) emails)"

definition hasDigit :: "jsstring \<Rightarrow> bool" where
  "hasDigit g \<longleftrightarrow> (\<exists>c \<in> set g. isDigit c)"

definition capturedAmount :: "jsstring \<Rightarrow> number option" where
  \<comment> \<open>the captured group of a match as \<open>calculateSum\<close> reads it: the commas removed,
      then \<open>parseFloat\<close>, \<open>None\<close> being NaN\<close>
  "capturedAmount g = parseFloat (filter (\<lambda>c. c \<noteq> 44) g)"

definition parses :: "jsstring \<times> jsstring \<Rightarrow> bool" where
  \<comment> \<open>the capture of a match is not read as NaN\<close>
  "parses mg \<longleftrightarrow> capturedAmount (snd mg) \<noteq> None"

definition currencyCount :: "jsstring \<Rightarrow> (jsstring \<times> jsstring) list \<Rightarrow> nat" where
  \<comment> \<open>how many of the matches have the currency symbol \<open>k\<close>\<close>
  "currencyCount k ms = length (filter (\<lambda>mg. currencyOf (fst mg) = k) ms)"

definition sumInv :: "sum_state \<Rightarrow> (jsstring \<times> jsstring) list \<Rightarrow> bool" where
  \<comment> \<open>the accumulators after the matches \<open>ms\<close>\<close>
  "sumInv st ms \<longleftrightarrow>
     distinct (map fst (currencyCounts st)) \<and>
     (\<forall>k. map_of (currencyCounts st) k =
        (if currencyCount k ms = 0 then None else Some (currencyCount k ms))) \<and>
     sum_list (map snd (currencyCounts st)) = length ms \<and>
     map (\<lambda>d. (d_text d, d_currency d, Some (d_amount d))) (details st) =
       map (\<lambda>(m, g). (m, currencyOf m, capturedAmount g)) (filter parses ms) \<and>
     total st = foldl addNumber (Finite 0) (map d_amount (details st))"










section \<open>Properties\<close>

subsection \<open>The query endpoint without a token\<close>

text \<open>
  Claim C9. A request body without a token is answered with status 401. The claim
  expects an \<open>answer\<close> field prompting the user to authenticate, as the 403 and 500
  responses of the same handler carry and as the client displays (\<open>data.answer\<close>); the
  handler sends the prompt in a field \<open>message\<close> instead, and no \<open>answer\<close> field.
\<close>

theorem POST_without_token:
  "POST fuel E (Inr \<lparr>rq_query = q, rq_token = None\<rparr>) w =
     (Some \<lparr>status = 401, b_answer = None, b_emails = None, b_error = None,
            b_message = Some (js ''Authentication required'')\<rparr>, w)"
  by (simp add: POST_def)

subsection \<open>The content of a parsed message\<close>

text \<open>
  Claim C5, as stated, takes the snippet whenever the decoded body is empty and the
  snippet field is present. A message whose snippet is present and empty (Gmail sends
  \<open>snippet: ""\<close> for a message without text) gets \<open>"No content available"\<close>: the
  \<open>||\<close> chain tests truthiness, not presence.
\<close>

theorem emailBody_empty_snippet_counterexample:
  "\<not> (\<forall>decode m sn. trim (decodedBody decode m) = [] \<longrightarrow> snippet m = Some sn \<longrightarrow>
        emailBody decode m = sn)"
proof
  assume a: "\<forall>decode m sn. trim (decodedBody decode m) = [] \<longrightarrow> snippet m = Some sn \<longrightarrow>
        emailBody decode m = sn"
  have "emailBody (\<lambda>t. t) \<lparr>payload = None, snippet = Some []\<rparr> = []"
    by (rule a [rule_format]) (simp_all add: decodedBody_def trim_def)
  then show False
    by (simp add: emailBody_def decodedBody_def trim_def js_def)
qed

text \<open>
  Claim C5, amended. The content is the trimmed decoded body when that is not empty;
  otherwise the snippet when it is present and not empty; otherwise, also for an empty
  snippet, the literal \<open>"No content available"\<close>. The block \<open>parseEmailData\<close> returns
  ends with \<open>Content: \<close> and that content, cut to its first 200 code units followed by
  \<open>...\<close> when it is longer than 200 and unchanged when it is not.
\<close>

theorem parseEmailData_content:
  "(trim (decodedBody decode m) \<noteq> [] \<longrightarrow> emailBody decode m = trim (decodedBody decode m)) \<and>
   (\<forall>sn. trim (decodedBody decode m) = [] \<and> snippet m = Some sn \<and> sn \<noteq> [] \<longrightarrow>
      emailBody decode m = sn) \<and>
   (trim (decodedBody decode m) = [] \<and> (snippet m = None \<or> snippet m = Some []) \<longrightarrow>
      emailBody decode m = js ''No content available'') \<and>
   (\<exists>headerLines. parseEmailData decode m =
      headerLines @ js ''Content: '' @
        (if length (emailBody decode m) > 200
         then take 200 (emailBody decode m) @ js ''...'' else emailBody decode m))"
proof (intro conjI allI impI)
  show "\<exists>headerLines. parseEmailData decode m =
      headerLines @ js ''Content: '' @
        (if length (emailBody decode m) > 200
         then take 200 (emailBody decode m) @ js ''...'' else emailBody decode m)"
    unfolding parseEmailData_def Let_def truncateContent_def
    by (metis append.assoc)
qed (auto simp: emailBody_def Let_def)

theorem parseEmailData_content_witness:
  "emailBody (\<lambda>t. t) \<lparr>payload = None, snippet = Some (js ''Hi'')\<rparr> = js ''Hi'' \<and>
   emailBody (\<lambda>t. t) \<lparr>payload = None, snippet = None\<rparr> = js ''No content available'' \<and>
   emailBody (\<lambda>t. t)
     \<lparr>payload = Some ([], Part (Some (js '' ab'')) [Part None [], Part (Some (js ''c'')) []]),
      snippet = Some (js ''Hi'')\<rparr> = js ''ab'' @ [10] @ js ''c''"
proof -
  let ?m1 = "\<lparr>payload = None, snippet = Some (js ''Hi'')\<rparr>"
  let ?m2 = "\<lparr>payload = None, snippet = (None :: jsstring option)\<rparr>"
  let ?m3 = "\<lparr>payload = Some ([], Part (Some (js '' ab'')) [Part None [], Part (Some (js ''c'')) []]),
      snippet = Some (js ''Hi'')\<rparr>"
  have t3: "trim (decodedBody (\<lambda>t. t) ?m3) = js ''ab'' @ [10] @ js ''c''"
    by (simp add: decodedBody_def trim_def js_def stripControl_def isWhiteSpace_def)
  have "emailBody (\<lambda>t. t) ?m1 = js ''Hi''"
    using parseEmailData_content [of "\<lambda>t. t" ?m1]
    by (simp add: decodedBody_def trim_def js_def)
  moreover have "emailBody (\<lambda>t. t) ?m2 = js ''No content available''"
    using parseEmailData_content [of "\<lambda>t. t" ?m2]
    by (simp add: decodedBody_def trim_def)
  moreover have "emailBody (\<lambda>t. t) ?m3 = js ''ab'' @ [10] @ js ''c''"
    using parseEmailData_content [of "\<lambda>t. t" ?m3] t3
    by (simp add: js_def)
  ultimately show ?thesis by simp
qed

subsection \<open>Facts about the matcher\<close>

lemma rx_seq_set:
  "set (rx_seq p q s) = {(m1 @ m2, r2) | m1 r1 m2 r2. (m1, r1) \<in> set (p s) \<and> (m2, r2) \<in> set (q r1)}"
  by (auto simp: rx_seq_def) force

lemma rx_lit_Nil [simp]: "rx_lit ci [] = rx_empty"
  by (simp add: rx_lit_def)

lemma rx_lit_Cons: "rx_lit ci (c # t) = rx_seq (rx_char ci c) (rx_lit ci t)"
  by (simp add: rx_lit_def)

lemma rx_lit_exact:
  "rx_lit False t s = (if take (length t) s = t then [(t, drop (length t) s)] else [])"
proof (induction t arbitrary: s)
  case Nil
  then show ?case by (simp add: rx_empty_def)
next
  case (Cons c t)
  show ?case
    by (cases s) (auto simp: rx_lit_Cons rx_seq_def rx_char_def rx_class_def Cons.IH)
qed

lemma rx_plus_nonempty: "rx_plus P s \<noteq> [] \<longleftrightarrow> (\<exists>c r. s = c # r \<and> P c)"
  by (cases s) (auto simp: rx_plus_def)

lemma exec_nonempty:
  "exec pat s \<noteq> [] \<longleftrightarrow>
     (\<exists>m1 r1 m2 r2. (m1, r1) \<in> set (before pat s) \<and> (m2, r2) \<in> set (group1 pat r1) \<and> after pat r2 \<noteq> [])"
  by (fastforce simp: exec_def)

lemma matchAll_nonempty:
  "matchAll pat s \<noteq> [] \<longleftrightarrow> (\<exists>i \<le> length s. exec pat (drop i s) \<noteq> [])"
proof (induction s)
  case Nil
  then show ?case by (auto split: list.splits)
next
  case (Cons c cs)
  show ?case
  proof (cases "exec pat (c # cs)")
    case Nil
    have "(\<exists>i \<le> length (c # cs). exec pat (drop i (c # cs)) \<noteq> []) \<longleftrightarrow>
          (\<exists>i \<le> length cs. exec pat (drop i cs) \<noteq> [])" (is "?L \<longleftrightarrow> ?R")
    proof
      assume ?L
      then obtain i where i: "i \<le> length (c # cs)" "exec pat (drop i (c # cs)) \<noteq> []" by blast
      with Nil have "i \<noteq> 0" by (cases i) auto
      then obtain j where "i = Suc j" by (cases i) auto
      with i show ?R by auto
    next
      assume ?R
      then obtain i where "i \<le> length cs" "exec pat (drop i cs) \<noteq> []" by blast
      then have "Suc i \<le> length (c # cs)" "exec pat (drop (Suc i) (c # cs)) \<noteq> []" by auto
      then show ?L by blast
    qed
    with Nil Cons.IH show ?thesis by simp
  next
    case (Cons a list)
    then have "exec pat (drop 0 (c # cs)) \<noteq> []" by simp
    then have "\<exists>i \<le> length (c # cs). exec pat (drop i (c # cs)) \<noteq> []" by blast
    with Cons show ?thesis by (auto split: prod.splits)
  qed
qed

lemma exec_operator:
  "exec operatorPattern s \<noteq> [] \<longleftrightarrow>
     (\<exists>name v post. s = name @ [58] @ [v] @ post \<and> name \<in> set operatorNames \<and> \<not> isWhiteSpace v)"
proof
  assume "exec operatorPattern s \<noteq> []"
  then obtain m2 r2 where m: "(m2, r2) \<in> set (rx_alt (map (rx_lit False) operatorNames) s)"
    and a: "rx_seq (rx_char False 58) (rx_plus (\<lambda>c. \<not> isWhiteSpace c)) r2 \<noteq> []"
    by (auto simp: exec_nonempty operatorPattern_def rx_empty_def)
  from m obtain name where n: "name \<in> set operatorNames" "(m2, r2) \<in> set (rx_lit False name s)"
    by (auto simp: rx_alt_def)
  then have s: "take (length name) s = name" "m2 = name" "r2 = drop (length name) s"
    by (auto simp: rx_lit_exact split: if_splits)
  from a obtain m3 r3 where "(m3, r3) \<in> set (rx_char False 58 r2)"
     "rx_plus (\<lambda>c. \<not> isWhiteSpace c) r3 \<noteq> []"
    by (fastforce simp: rx_seq_def)
  then obtain v post where "r2 = 58 # v # post" "\<not> isWhiteSpace v"
    by (cases r2) (auto simp: rx_char_def rx_class_def rx_plus_nonempty split: if_splits)
  with s have "s = name @ [58] @ [v] @ post"
    by (metis append_Cons append_Nil append_take_drop_id)
  with n \<open>\<not> isWhiteSpace v\<close> show "\<exists>name v post. s = name @ [58] @ [v] @ post \<and> name \<in> set operatorNames \<and> \<not> isWhiteSpace v"
    by blast
next
  assume "\<exists>name v post. s = name @ [58] @ [v] @ post \<and> name \<in> set operatorNames \<and> \<not> isWhiteSpace v"
  then obtain name v post where s: "s = name @ [58] @ [v] @ post" and n: "name \<in> set operatorNames"
    and v: "\<not> isWhiteSpace v" by blast
  have 1: "(name, 58 # v # post) \<in> set (rx_alt (map (rx_lit False) operatorNames) s)"
    using n s by (auto simp: rx_alt_def rx_lit_exact)
  have 2: "rx_seq (rx_char False 58) (rx_plus (\<lambda>c. \<not> isWhiteSpace c)) (58 # v # post) \<noteq> []"
    using v by (simp add: rx_seq_def rx_char_def rx_class_def rx_plus_nonempty)
  show "exec operatorPattern s \<noteq> []"
    unfolding exec_nonempty operatorPattern_def
    using 1 2 by (auto simp: rx_empty_def)
qed

lemma operators_iff: "matchAll operatorPattern query \<noteq> [] \<longleftrightarrow> containsOperator query"
proof
  assume "matchAll operatorPattern query \<noteq> []"
  then obtain i where "i \<le> length query" "exec operatorPattern (drop i query) \<noteq> []"
    by (auto simp: matchAll_nonempty)
  then obtain name v post where "drop i query = name @ [58] @ [v] @ post"
     "name \<in> set operatorNames" "\<not> isWhiteSpace v"
    by (auto simp: exec_operator)
  then have "query = take i query @ name @ [58] @ [v] @ post \<and> name \<in> set operatorNames \<and> \<not> isWhiteSpace v"
    by (metis append_take_drop_id)
  then show "containsOperator query" unfolding containsOperator_def by blast
next
  assume "containsOperator query"
  then obtain pre name v post where q: "query = pre @ name @ [58] @ [v] @ post"
    and n: "name \<in> set operatorNames" "\<not> isWhiteSpace v"
    unfolding containsOperator_def by blast
  then have "drop (length pre) query = name @ [58] @ [v] @ post" by simp
  with n have "exec operatorPattern (drop (length pre) query) \<noteq> []"
    by (auto simp: exec_operator)
  moreover have "length pre \<le> length query" using q by simp
  ultimately show "matchAll operatorPattern query \<noteq> []"
    unfolding matchAll_nonempty by blast
qed

subsection \<open>The search ladder\<close>

lemma resume_fields [simp]:
  "trace (resume E w) = trace w" "api_calls (resume E w) = api_calls w"
  "gmail_calls (resume E w) = gmail_calls w"
  by (simp_all add: resume_def)

lemma emit_fields [simp]:
  "trace (emit ev w) = trace w @ [ev]" "api_calls (emit ev w) = api_calls w"
  "gmail_calls (emit ev w) = gmail_calls w" "previousQueries (emit ev w) = previousQueries w"
  by (simp_all add: emit_def)

lemma resume_testEnv [simp]: "resume (testEnv create parse list) w = w"
  by (simp add: resume_def testEnv_def)

lemma listQueries_Nil [simp]: "listQueries [] = []"
  by (simp add: listQueries_def)

lemma listQueries_append [simp]: "listQueries (a @ b) = listQueries a @ listQueries b"
  by (simp add: listQueries_def)

lemma fetchMessages_trace:
  "\<exists>rest. trace (snd (fetchMessages E ids ps es w)) = trace w @ rest \<and> listQueries rest = []"
proof (induction E ids ps es w rule: fetchMessages.induct)
  case (1 E processedIds emails w)
  then show ?case by simp
next
  case (2 E i ids processedIds emails w)
  show ?case
  proof (cases "i \<in> set processedIds")
    case True
    with 2 show ?thesis by simp
  next
    case False
    obtain r w' where g: "getMessage E i w = (r, w')" by (cases "getMessage E i w")
    then have w': "trace w' = trace w @ [GetMessage i]"
      by (auto simp: getMessage_def emit_def)
    show ?thesis
    proof (cases r)
      case (Inl err)
      with False g w' show ?thesis by (simp add: listQueries_def)
    next
      case (Inr email)
      show ?thesis
      proof (cases "length (emails @ [parseEmailData (decodeBase64 E) email]) \<ge> 5")
        case True
        with False g w' Inr show ?thesis by (simp add: listQueries_def)
      next
        case nf: False
        from 2(2)[OF False g[symmetric] Inr refl nf] 
        obtain rest where "trace (snd (fetchMessages E ids (processedIds @ [i]) (emails @ [parseEmailData (decodeBase64 E) email]) w')) = trace w' @ rest" "listQueries rest = []"
          by blast
        with False g w' Inr nf show ?thesis by (simp add: listQueries_def)
      qed
    qed
  qed
qed

lemma listMessages_facts:
  assumes "listMessages E q w = (r, w')"
  shows "r = messages_list E (gmail_calls w) q" "trace w' = trace w @ [ListMessages q]"
    "gmail_calls w' = gmail_calls w + 1" "api_calls w' = api_calls w"
  using assms by (auto simp: listMessages_def)

lemma searchEmails_trace:
  "\<exists>rest. trace (snd (searchEmails E query w)) =
      trace w @ [SearchEmails query, ListMessages (tier1Query query)] @ rest \<and>
      listQueries rest =
        (case messages_list E (gmail_calls w) (tier1Query query) of
           Inr None \<Rightarrow> [tier2Query query] | _ \<Rightarrow> [])"
proof -
  obtain r1 w1 where l1: "listMessages E (tier1Query query) (emit (SearchEmails query) w) = (r1, w1)"
    by (cases "listMessages E (tier1Query query) (emit (SearchEmails query) w)")
  have r1: "messages_list E (gmail_calls w) (tier1Query query) = r1"
    and t1: "trace w1 = trace w @ [SearchEmails query, ListMessages (tier1Query query)]"
    using listMessages_facts[OF l1] by (simp_all add: emit_def)
  show ?thesis
  proof (cases r1)
    case (Inl err)
    with l1 r1 t1 show ?thesis by (simp add: searchEmails_def Let_def)
  next
    case (Inr o1)
    show ?thesis
    proof (cases o1)
      case (Some ids)
      obtain rest where "trace (snd (fetchMessages E ids [] [] w1)) = trace w1 @ rest" "listQueries rest = []"
        using fetchMessages_trace by blast
      with Inr Some l1 r1 t1 show ?thesis
        by (simp add: searchEmails_def Let_def)
    next
      case None
      obtain r2 w2 where l2: "listMessages E (tier2Query query) w1 = (r2, w2)"
        by (cases "listMessages E (tier2Query query) w1")
      have t2: "trace w2 = trace w1 @ [ListMessages (tier2Query query)]"
        using listMessages_facts[OF l2] by simp
      show ?thesis
      proof (cases r2)
        case e2: (Inl err)
        with Inr None l1 l2 r1 t1 t2 show ?thesis
          by (simp add: searchEmails_def Let_def listQueries_def)
      next
        case i2: (Inr o2)
        show ?thesis
        proof (cases o2)
          case n2: None
          with Inr None l1 l2 i2 r1 t1 t2 show ?thesis
            by (simp add: searchEmails_def Let_def listQueries_def)
        next
          case s2: (Some ids)
          obtain rest where "trace (snd (fetchMessages E ids [] [] w2)) = trace w2 @ rest" "listQueries rest = []"
            using fetchMessages_trace by blast
          with Inr None l1 l2 i2 s2 r1 t1 t2 show ?thesis
            by (simp add: searchEmails_def Let_def listQueries_def)
        qed
      qed
    qed
  qed
qed





subsection \<open>Operators are not phrase-wrapped\<close>

text \<open>
  Claim C4. A query that contains a recognized field operator (one of the eleven names,
  a colon, a value starting with a non-blank) is sent to the mail store as it is; a query
  that contains none is sent in double quotes. The query so built is the one of the
  first list call of \<open>searchEmails\<close>, and what the mail store answers to it decides the
  result: its error is the error of \<open>searchEmails\<close>, and its messages are the ones
  fetched.
\<close>

theorem tier1_operator_passthrough:
  "(containsOperator query \<longrightarrow> tier1Query query = query) \<and>
   (\<not> containsOperator query \<longrightarrow> tier1Query query = [34] @ query @ [34]) \<and>
   (\<exists>rest. trace (snd (searchEmails E query w)) =
      trace w @ [SearchEmails query, ListMessages (tier1Query query)] @ rest) \<and>
   (\<forall>err. messages_list E (gmail_calls w) (tier1Query query) = Inl err \<longrightarrow>
      fst (searchEmails E query w) = Inl err) \<and>
   (\<forall>ids. messages_list E (gmail_calls w) (tier1Query query) = Inr (Some ids) \<longrightarrow>
      searchEmails E query w =
        fetchMessages E ids [] []
          (snd (listMessages E (tier1Query query) (emit (SearchEmails query) w))))"
proof -
  have "tier1Query query = (if containsOperator query then query else [34] @ query @ [34])"
    using operators_iff [of query] by (simp add: tier1Query_def)
  moreover have "\<exists>rest. trace (snd (searchEmails E query w)) =
      trace w @ [SearchEmails query, ListMessages (tier1Query query)] @ rest"
    using searchEmails_trace [of E query w] by blast
  moreover have "messages_list E (gmail_calls w) (tier1Query query) = Inl err \<longrightarrow>
      fst (searchEmails E query w) = Inl err" for err
    by (simp add: searchEmails_def listMessages_def Let_def)
  moreover have "messages_list E (gmail_calls w) (tier1Query query) = Inr (Some ids) \<longrightarrow>
      searchEmails E query w =
        fetchMessages E ids [] []
          (snd (listMessages E (tier1Query query) (emit (SearchEmails query) w)))" for ids
    by (simp add: searchEmails_def listMessages_def Let_def)
  ultimately show ?thesis by simp
qed

theorem tier1_operator_passthrough_witness:
  "tier1Query (js ''mail from:alice'') = js ''mail from:alice'' \<and>
   tier1Query (js ''hello world'') = [34] @ js ''hello world'' @ [34] \<and>
   fst (searchEmails aliceEnv (js ''mail from:alice'') world0) = Inr [emptyBlock] \<and>
   fst (searchEmails aliceEnv (js ''hello world'') world0) = Inr [emptyBlock]"
proof -
  have "js ''mail from:alice'' = js ''mail '' @ js ''from'' @ [58] @ [97] @ js ''lice''"
    by (simp add: js_def)
  moreover have "js ''from'' \<in> set operatorNames" by (simp add: operatorNames_def)
  moreover have "\<not> isWhiteSpace 97" by (simp add: isWhiteSpace_def)
  ultimately have c1: "containsOperator (js ''mail from:alice'')"
    unfolding containsOperator_def by blast
  have "matchAll operatorPattern (js ''hello world'') = []"
    by (simp add: js_def operatorPattern_def exec_def rx_empty_def rx_alt_def
        operatorNames_def rx_lit_exact rx_seq_def)
  then have c2: "\<not> containsOperator (js ''hello world'')"
    using operators_iff [of "js ''hello world''"] by simp
  note a = tier1_operator_passthrough [of "js ''mail from:alice''" aliceEnv world0]
  note h = tier1_operator_passthrough [of "js ''hello world''" aliceEnv world0]
  from a c1 have ta: "tier1Query (js ''mail from:alice'') = js ''mail from:alice''" by simp
  from h c2 have th: "tier1Query (js ''hello world'') = [34] @ js ''hello world'' @ [34]" by simp
  have f: "fst (fetchMessages aliceEnv [js ''m1''] [] [] w) = Inr [emptyBlock]" for w
    by (simp add: getMessage_def aliceEnv_def testEnv_def parseEmailData_def headerValue_def
        emailBody_def decodedBody_def trim_def truncateContent_def emptyBlock_def js_def)
  have la: "messages_list aliceEnv (gmail_calls world0) (tier1Query (js ''mail from:alice'')) =
      Inr (Some [js ''m1''])"
    unfolding ta by (simp add: aliceEnv_def testEnv_def)
  have lh: "messages_list aliceEnv (gmail_calls world0) (tier1Query (js ''hello world'')) =
      Inr (Some [js ''m1''])"
    unfolding th by (simp add: aliceEnv_def testEnv_def)
  from a la have "\<exists>w. searchEmails aliceEnv (js ''mail from:alice'') world0 =
      fetchMessages aliceEnv [js ''m1''] [] [] w"
    by blast
  then have ra: "fst (searchEmails aliceEnv (js ''mail from:alice'') world0) = Inr [emptyBlock]"
    using f by auto
  from h lh have "\<exists>w. searchEmails aliceEnv (js ''hello world'') world0 =
      fetchMessages aliceEnv [js ''m1''] [] [] w"
    by blast
  then have rh: "fst (searchEmails aliceEnv (js ''hello world'') world0) = Inr [emptyBlock]"
    using f by auto
  from ta th ra rh show ?thesis by simp
qed

subsection \<open>Numbers\<close>

lemma bitLength_bounds: "n > 0 \<Longrightarrow> 2 ^ (bitLength n - 1) \<le> n \<and> n < 2 ^ bitLength n"
proof (induction n rule: bitLength.induct)
  case (1 n)
  show ?case
  proof (cases "n div 2 = 0")
    case True
    with 1(2) have "n = 1" by (cases n) auto
    then show ?thesis by (simp add: bitLength.simps)
  next
    case False
    with 1 have ih: "2 ^ (bitLength (n div 2) - 1) \<le> n div 2" "n div 2 < 2 ^ bitLength (n div 2)"
      by auto
    have b: "bitLength n = Suc (bitLength (n div 2))" using 1(2) by (subst bitLength.simps) simp
    have p: "bitLength (n div 2) > 0" using False by (subst bitLength.simps) simp
    then have "(2::nat) ^ bitLength (n div 2) = 2 * 2 ^ (bitLength (n div 2) - 1)"
      by (cases "bitLength (n div 2)") auto
    moreover have "2 * (n div 2) \<le> n" "n \<le> 2 * (n div 2) + 1" by presburger+
    ultimately have "2 ^ bitLength (n div 2) \<le> n" "n < 2 * 2 ^ bitLength (n div 2)"
      using ih by linarith+
    with b show ?thesis by simp
  qed
qed

lemma bitLength_one [simp]: "bitLength (Suc 0) = 1"
  by (simp add: bitLength.simps)

lemma pow2_cancel: "k \<le> j \<Longrightarrow> of_nat (n * 2 ^ (j - k)) * pow2 (int k - int j) = of_nat n"
proof (cases "k = j")
  case True
  then show ?thesis by (simp add: pow2_def)
next
  case False
  assume "k \<le> j"
  with False have "nat (- (int k - int j)) = j - k" "\<not> int k - int j \<ge> 0" by simp_all
  then show ?thesis unfolding pow2_def by simp
qed

lemma toDouble_nat:
  assumes "n < 2 ^ 53"
  shows "toDouble n 1 = Finite (of_nat n)"
proof (cases "n = 0")
  case True
  then show ?thesis by (simp add: toDouble_def)
next
  case False
  then have n: "n > 0" by simp
  define b where "b = bitLength n - 1"
  from bitLength_bounds[OF n] have lo: "2 ^ b \<le> n" and hi: "n < 2 ^ bitLength n"
    by (simp_all add: b_def)
  have bl: "bitLength n = Suc b"
  proof -
    have "bitLength n > 0" using n by (subst bitLength.simps) simp
    then show ?thesis by (simp add: b_def)
  qed
  have "(2::nat) ^ b < 2 ^ 53" using lo assms by simp
  then have "b < 53" by (rule power_less_imp_less_exp[rotated]) simp
  then have b52: "b \<le> 52" by simp
  have s: "int (bitLength n) - int (bitLength 1) = int b" by (simp add: bl)
  have e: "(if n * 2 ^ nat (- int b) < 1 * 2 ^ nat (int b) then int b - 1 else int b) = int b"
    using lo by simp
  have k: "max (int b) (- 1022) - 52 = int b - 52" by simp
  have nk: "nat (- (int b - 52)) = 52 - b" "nat (int b - 52) = 0" using b52 by simp_all
  have v: "of_nat (n * 2 ^ (52 - b)) * pow2 (int b - 52) = (of_nat n :: rat)"
    using pow2_cancel[OF b52, of n] by simp
  have big: "(of_nat n :: rat) < 2 ^ 1024"
  proof -
    have "(of_nat n :: rat) < of_nat (2 ^ 53)" using assms by (simp only: of_nat_less_iff)
    also have "\<dots> < 2 ^ 1024" by simp
    finally show ?thesis .
  qed
  have d: "1 * 2 ^ 0 = (1::nat)" by simp
  have m: "(if 2 * (N mod 1) < 1 \<or> (2 * (N mod 1) = 1 \<and> even (N div 1)) then N div 1 else N div 1 + 1) = N"
    for N :: nat by simp
  from big have nb: "\<not> 2 ^ 1024 \<le> (of_nat n :: rat)" by (simp only: not_le)
  show ?thesis
    unfolding toDouble_def Let_def s e k nk d m v
    using False nb by (simp only: if_False)
qed

lemma roundNumber_nat: "n < 2 ^ 53 \<Longrightarrow> roundNumber (of_nat n) = Finite (of_nat n)"
proof -
  assume a: "n < 2 ^ 53"
  have "quotient_of (of_nat n) = (int n, 1)"
    by (simp add: Fract_of_nat_eq[symmetric] quotient_of_Fract Rat.normalize_def)
  then show ?thesis using toDouble_nat[OF a] by (simp add: roundNumber_def)
qed

lemma addNumber_nat:
  "a + b < 2 ^ 53 \<Longrightarrow> addNumber (Finite (of_nat a)) (Finite (of_nat b)) = Finite (of_nat (a + b))"
  using roundNumber_nat[of "a + b"] by simp

subsection \<open>The amount aggregator\<close>

lemma not_digit [simp]: "\<not> isDigit 44" "\<not> isDigit 46"
  by (simp_all add: isDigit_def)

lemma matchAll_elem:
  "(m, g) \<in> set (matchAll pat s) \<Longrightarrow> \<exists>u r. (m, g, r) \<in> set (exec pat u)"
proof (induction pat s rule: matchAll.induct)
  case (1 pat)
  show ?case
  proof (cases "exec pat []")
    case Nil
    with 1 show ?thesis by simp
  next
    case (Cons a list)
    obtain m' g' r' where a: "a = (m', g', r')" by (cases a)
    from 1 have "(m, g) = (m', g')" unfolding matchAll.simps Cons a by simp
    then have "(m, g, r') \<in> set (exec pat [])" unfolding Cons a by simp
    then show ?thesis by blast
  qed
next
  case (2 pat c cs)
  show ?case
  proof (cases "exec pat (c # cs)")
    case Nil
    from 2(3) have "(m, g) \<in> set (matchAll pat cs)" unfolding matchAll.simps Nil by simp
    from 2(1)[OF Nil this] show ?thesis .
  next
    case (Cons a list)
    obtain m' g' r' where a: "a = (m', g', r')" by (cases a)
    from 2(3) have "(m, g) = (m', g') \<or> (m, g) \<in> set (matchAll pat (drop (length m' - 1) cs))"
      unfolding matchAll.simps Cons a by simp
    then show ?thesis
    proof
      assume "(m, g) = (m', g')"
      then have "(m, g, r') \<in> set (exec pat (c # cs))" unfolding Cons a by simp
      then show ?thesis by blast
    next
      assume "(m, g) \<in> set (matchAll pat (drop (length m' - 1) cs))"
      from 2(2)[OF Cons a[symmetric] refl this] show ?thesis .
    qed
  qed
qed

lemma exec_group:
  "(m, g, r) \<in> set (exec pat u) \<Longrightarrow> \<exists>r1 r2. (g, r2) \<in> set (group1 pat r1)"
  by (auto simp: exec_def)

lemma rx_plus_elem:
  assumes "(m, r) \<in> set (rx_plus P s)"
  shows "m \<noteq> []" "\<forall>c \<in> set m. P c" "s = m @ r"
proof -
  from assms obtain k where k: "1 \<le> k" "k \<le> length (takeWhile P s)" "m = take k s" "r = drop k s"
    by (auto simp: rx_plus_def)
  have "length (takeWhile P s) \<le> length s" by (rule length_takeWhile_le)
  with k show "m \<noteq> []" by auto
  have "take k s = take k (takeWhile P s)"
    using k(2) by (metis takeWhile_dropWhile_id take_append diff_is_0_eq' take0 append_Nil2)
  then have "set m \<subseteq> set (takeWhile P s)" using k(3) by (metis set_take_subset)
  then show "\<forall>c \<in> set m. P c" by (auto dest: set_takeWhileD)
  show "s = m @ r" using k by simp
qed

lemma rx_opt_set: "set (rx_opt p s) = set (p s) \<union> {([], s)}"
  by (simp add: rx_opt_def)

lemma rx_char_elem:
  "(m, r) \<in> set (rx_char ci c s) \<Longrightarrow> \<exists>x. m = [x] \<and> s = x # r \<and> (if ci then canon x = canon c else x = c)"
  by (cases s) (auto simp: rx_char_def rx_class_def split: if_splits)

lemma canon_dot: "canon x = canon 46 \<longleftrightarrow> x = 46"
  by (auto simp: canon_def)

lemma amountRx_shape:
  assumes "(g, r) \<in> set (amountRx s)"
  shows "\<exists>a b. g = a @ b \<and> a \<noteq> [] \<and> (\<forall>c \<in> set a. isDigit c \<or> c = 44) \<and>
           (b = [] \<or> (\<exists>ds. b = 46 # ds \<and> ds \<noteq> [] \<and> (\<forall>c \<in> set ds. isDigit c)))"
proof -
  from assms obtain a r1 b where a: "(a, r1) \<in> set (rx_plus (\<lambda>c. isDigit c \<or> c = 44) s)"
    and b: "(b, r) \<in> set (rx_opt (rx_seq (rx_char True 46) (rx_plus isDigit)) r1)"
    and g: "g = a @ b"
    unfolding amountRx_def rx_seq_set by blast
  from b have "b = [] \<or> (b, r) \<in> set (rx_seq (rx_char True 46) (rx_plus isDigit) r1)"
    by (auto simp: rx_opt_set)
  then have "b = [] \<or> (\<exists>ds. b = 46 # ds \<and> ds \<noteq> [] \<and> (\<forall>c \<in> set ds. isDigit c))"
  proof
    assume "b = []" then show ?thesis by simp
  next
    assume "(b, r) \<in> set (rx_seq (rx_char True 46) (rx_plus isDigit) r1)"
    then obtain m1 r2 ds where "(m1, r2) \<in> set (rx_char True 46 r1)" "(ds, r) \<in> set (rx_plus isDigit r2)"
      "b = m1 @ ds" unfolding rx_seq_set by blast
    then show ?thesis
      using rx_char_elem[of m1 r2 True 46 r1] rx_plus_elem[of ds r isDigit r2]
      by (auto simp: canon_dot)
  qed
  with a g rx_plus_elem[OF a] show ?thesis by blast
qed

lemma digitsValue_ok: "takeWhile isDigit (a @ b) = a" if "\<forall>c \<in> set a. isDigit c" "b = [] \<or> \<not> isDigit (hd b)" for a b
  using that by (cases b) (auto simp: takeWhile_append)

lemma parseFloat_shape:
  assumes a: "\<forall>c \<in> set a. isDigit c \<or> c = 44"
    and b: "b = [] \<or> (\<exists>ds. b = 46 # ds \<and> ds \<noteq> [] \<and> (\<forall>c \<in> set ds. isDigit c))"
  shows "parseFloat (filter (\<lambda>c. c \<noteq> 44) (a @ b)) = None \<longleftrightarrow> set (a @ b) \<subseteq> {44}"
proof -
  let ?a = "filter (\<lambda>c. c \<noteq> 44) a"
  have fa: "\<forall>c \<in> set ?a. isDigit c" using a by auto
  have fb: "filter (\<lambda>c. c \<noteq> 44) b = b"
  proof -
    have "\<forall>c \<in> set b. c \<noteq> 44"
    proof
      fix c assume c: "c \<in> set b"
      with b obtain ds where "b = 46 # ds" "\<forall>c \<in> set ds. isDigit c" by auto
      with c have "c = 46 \<or> isDigit c" by auto
      then show "c \<noteq> 44" by auto
    qed
    then show ?thesis by (simp add: filter_id_conv)
  qed
  have nb: "b = [] \<or> \<not> isDigit (hd b)" using b by auto
  have tw: "takeWhile isDigit (?a @ b) = ?a" by (rule digitsValue_ok[OF fa nb])
  have ae: "?a = [] \<longleftrightarrow> set a \<subseteq> {44}" by (auto simp: filter_empty_conv)
  show ?thesis
  proof (cases "b = []")
    case True
    have t: "takeWhile isDigit ?a = ?a" using tw True by simp
    have "parseFloat ?a = None \<longleftrightarrow> ?a = []"
      unfolding parseFloat_def Let_def t by simp
    with True ae show ?thesis by simp
  next
    case False
    with b obtain ds where ds: "b = 46 # ds" "ds \<noteq> []" "\<forall>c \<in> set ds. isDigit c" by blast
    have td: "takeWhile isDigit ds = ds" using ds(3) by (simp add: takeWhile_eq_all_conv)
    have "parseFloat (?a @ 46 # ds) \<noteq> None"
      unfolding parseFloat_def Let_def tw[unfolded ds(1)]
      using ds(2) by (simp add: td)
    moreover have "\<not> set (a @ b) \<subseteq> {44}" using ds(1) by simp
    ultimately show ?thesis using fb ds(1) by simp
  qed
qed

lemma category_group:
  assumes "pat \<in> set (categoryPatterns lc category)"
  shows "group1 pat = amountRx"
proof -
  from assms obtain k where "pat \<in> set (case map_of patterns k of None \<Rightarrow> [] | Some ps \<Rightarrow> ps)"
    unfolding categoryPatterns_def Let_def by blast
  then obtain ps where ps: "map_of patterns k = Some ps" "pat \<in> set ps"
    by (cases "map_of patterns k") auto
  from ps(1) have "(k, ps) \<in> set patterns" by (rule map_of_SomeD)
  then have "ps = [moneyPattern] \<or> ps = [keywordPattern flightKeywords, boundedMoneyPattern] \<or>
      ps = [keywordPattern subscriptionKeywords, boundedMoneyPattern]"
    unfolding patterns_def by auto
  with ps(2) have "pat = moneyPattern \<or> pat = boundedMoneyPattern \<or>
      pat = keywordPattern flightKeywords \<or> pat = keywordPattern subscriptionKeywords"
    by auto
  then show ?thesis
    by (auto simp: moneyPattern_def boundedMoneyPattern_def keywordPattern_def)
qed

lemma amount_captured:
  assumes "pat \<in> set (categoryPatterns lc category)" "(m, g) \<in> set (matchAll pat text)"
  shows "g \<noteq> []" "set g \<subseteq> {c. isDigit c \<or> c = 44 \<or> c = 46}"
    "length (filter (\<lambda>c. c = 46) g) \<le> 1"
    "capturedAmount g = None \<longleftrightarrow> set g \<subseteq> {44}"
    "capturedAmount g \<noteq> None \<longleftrightarrow> hasDigit g"
proof -
  from matchAll_elem[OF assms(2)] obtain u r where "(m, g, r) \<in> set (exec pat u)" by blast
  from exec_group[OF this] category_group[OF assms(1)] obtain r1 r2 where "(g, r2) \<in> set (amountRx r1)"
    by auto
  from amountRx_shape[OF this] obtain a b where
    s: "g = a @ b" "a \<noteq> []" "\<forall>c \<in> set a. isDigit c \<or> c = 44"
      "b = [] \<or> (\<exists>ds. b = 46 # ds \<and> ds \<noteq> [] \<and> (\<forall>c \<in> set ds. isDigit c))"
    by blast
  show "g \<noteq> []" using s by simp
  show "set g \<subseteq> {c. isDigit c \<or> c = 44 \<or> c = 46}" using s by auto
  have "filter (\<lambda>c. c = 46) a = []" using s(3) by (auto simp: filter_empty_conv)
  moreover have "length (filter (\<lambda>c. c = 46) b) \<le> 1"
  proof (cases "b = []")
    case True
    then show ?thesis by simp
  next
    case False
    with s(4) obtain ds where ds: "b = 46 # ds" "\<forall>c \<in> set ds. isDigit c" by blast
    then have "filter (\<lambda>c. c = 46) ds = []" by (auto simp: filter_empty_conv)
    with ds show ?thesis by simp
  qed
  ultimately show "length (filter (\<lambda>c. c = 46) g) \<le> 1" using s(1) by simp
  show pf: "capturedAmount g = None \<longleftrightarrow> set g \<subseteq> {44}"
    unfolding s(1) capturedAmount_def by (rule parseFloat_shape[OF s(3,4)])
  have "hasDigit g \<longleftrightarrow> \<not> set g \<subseteq> {44}"
  proof
    assume "hasDigit g"
    then obtain c where "c \<in> set g" "isDigit c" unfolding hasDigit_def by blast
    then show "\<not> set g \<subseteq> {44}" by auto
  next
    assume "\<not> set g \<subseteq> {44}"
    then obtain c where c: "c \<in> set g" "c \<noteq> 44" by auto
    show "hasDigit g"
    proof (cases "c \<in> set a")
      case True
      with s(3) c have "isDigit c" by auto
      with c show ?thesis unfolding hasDigit_def by blast
    next
      case False
      with c s(1) have "c \<in> set b" by auto
      with s(4) obtain ds where ds: "b = 46 # ds" "ds \<noteq> []" "\<forall>c \<in> set ds. isDigit c" by auto
      then have "hd ds \<in> set g" "isDigit (hd ds)" using s(1) by auto
      then show ?thesis unfolding hasDigit_def by blast
    qed
  qed
  with pf show "capturedAmount g \<noteq> None \<longleftrightarrow> hasDigit g" by simp
qed

lemma bump_keys:
  "k \<in> fst ` set counts \<Longrightarrow> map fst (bump counts k) = map fst counts"
  by (auto simp: bump_def)

lemma bump_sum_in:
  fixes counts :: "(jsstring \<times> nat) list"
  shows "distinct (map fst counts) \<Longrightarrow> k \<in> fst ` set counts \<Longrightarrow>
   sum_list (map snd (map (\<lambda>(k', n). if k' = k then (k', n + 1) else (k', n)) counts)) =
     sum_list (map snd counts) + 1"
proof (induction counts)
  case Nil
  then show ?case by simp
next
  case (Cons a counts)
  obtain k' n where a: "a = (k', n)" by (cases a)
  show ?case
  proof (cases "k' = k")
    case True
    with Cons(2) a have "k \<notin> fst ` set counts" by auto
    then have "map (\<lambda>(k', n). if k' = k then (k', n + 1) else (k', n)) counts = counts"
      by (induction counts) auto
    then have "sum_list (map snd (map (\<lambda>(k', n). if k' = k then (k', n + 1) else (k', n)) (a # counts))) =
        (n + 1) + sum_list (map snd counts)"
      using True a by simp
    then show ?thesis using a by simp
  next
    case False
    with Cons a show ?thesis by auto
  qed
qed

lemma bump_inv:
  assumes "distinct (map fst counts)"
  shows "distinct (map fst (bump counts k))"
    "sum_list (map snd (bump counts k)) = sum_list (map snd counts) + 1"
proof -
  show "distinct (map fst (bump counts k))"
  proof (cases "k \<in> fst ` set counts")
    case True
    with assms show ?thesis by (simp add: bump_keys)
  next
    case False
    with assms show ?thesis by (auto simp: bump_def)
  qed
  show "sum_list (map snd (bump counts k)) = sum_list (map snd counts) + 1"
  proof (cases "k \<in> fst ` set counts")
    case True
    with bump_sum_in[OF assms True] show ?thesis by (simp add: bump_def)
  next
    case False
    then show ?thesis by (simp add: bump_def)
  qed
qed

lemma bump_map_of:
  "map_of (bump counts k) k' =
     (if k' = k then Some (case map_of counts k of None \<Rightarrow> 1 | Some n \<Rightarrow> n + 1)
      else map_of counts k')"
proof (cases "k \<in> fst ` set counts")
  case True
  have "map_of (map (\<lambda>(k', n). if k' = k then (k', n + 1) else (k', n)) counts) k' =
      (if k' = k then (case map_of counts k of None \<Rightarrow> None | Some n \<Rightarrow> Some (n + 1))
       else map_of counts k')"
    by (induction counts) auto
  moreover from True obtain n where "map_of counts k = Some n"
    by (metis domIff dom_map_of_conv_image_fst not_Some_eq)
  ultimately show ?thesis using True by (simp add: bump_def)
next
  case False
  then have "map_of counts k = None" by (simp add: map_of_eq_None_iff)
  with False show ?thesis by (auto simp: bump_def map_add_def split: option.splits)
qed

lemma addMatch_inv:
  assumes "sumInv st ms"
  shows "sumInv (addMatch f s d st mg) (ms @ [mg])"
proof -
  obtain m g where mg: "mg = (m, g)" by (cases mg)
  have c: "\<forall>k. map_of (bump (currencyCounts st) (currencyOf m)) k =
      (if currencyCount k (ms @ [mg]) = 0 then None else Some (currencyCount k (ms @ [mg])))"
    using assms by (auto simp: bump_map_of sumInv_def currencyCount_def mg)
  show ?thesis
  proof (cases "capturedAmount g")
    case None
    with assms bump_inv[of "currencyCounts st" "currencyOf m"] c show ?thesis
      by (simp add: addMatch_def Let_def sumInv_def parses_def mg capturedAmount_def)
  next
    case (Some x)
    with assms bump_inv[of "currencyCounts st" "currencyOf m"] c show ?thesis
      by (simp add: addMatch_def Let_def sumInv_def parses_def mg capturedAmount_def)
  qed
qed

lemma matches_inv:
  "sumInv st ms \<Longrightarrow> sumInv (foldl (addMatch f s d) st ms') (ms @ ms')"
proof (induction ms' arbitrary: st ms)
  case Nil
  then show ?case by simp
next
  case (Cons mg ms')
  from Cons(1)[OF addMatch_inv[OF Cons(2), of f s d mg]] show ?case by simp
qed

lemma patterns_inv:
  "sumInv st ms \<Longrightarrow>
   sumInv (foldl (\<lambda>st' pat. foldl (addMatch f s d) st' (matchAll pat t)) st ps)
     (ms @ concat (map (\<lambda>pat. matchAll pat t) ps))"
proof (induction ps arbitrary: st ms)
  case Nil
  then show ?case by simp
next
  case (Cons pat ps)
  from Cons(1)[OF matches_inv[OF Cons(2), of f s d "matchAll pat t"]] show ?case by simp
qed

lemma addEmail_inv:
  "sumInv st ms \<Longrightarrow>
   sumInv (addEmail ps st email) (ms @ concat (map (\<lambda>pat. matchAll pat (searchTextOf email)) ps))"
  unfolding addEmail_def searchTextOf_def Let_def by (rule patterns_inv)

lemma emails_inv:
  "sumInv st ms \<Longrightarrow> sumInv (foldl (addEmail ps) st emails) (ms @ allMatches ps emails)"
proof (induction emails arbitrary: st ms)
  case Nil
  then show ?case by (simp add: allMatches_def)
next
  case (Cons email emails)
  from Cons(1)[OF addEmail_inv[OF Cons(2), of ps email]] show ?case
    by (simp add: allMatches_def)
qed

lemma allMatches_elem:
  "mg \<in> set (allMatches ps emails) \<Longrightarrow> \<exists>pat tx. pat \<in> set ps \<and> mg \<in> set (matchAll pat tx)"
  by (auto simp: allMatches_def)

lemma sumEmails_inv:
  "sumInv (sumEmails lc emails category) (allMatches (categoryPatterns lc category) emails)"
proof -
  have "sumInv \<lparr>total = Finite 0, details = [], currencyCounts = []\<rparr> []"
    by (simp add: sumInv_def currencyCount_def)
  from emails_inv[OF this, of "categoryPatterns lc category" emails]
  show ?thesis by (simp add: sumEmails_def)
qed

lemma parses_hasDigit:
  "filter parses (allMatches (categoryPatterns lc category) emails) =
   filter (\<lambda>(m, g). hasDigit g) (allMatches (categoryPatterns lc category) emails)"
proof (rule filter_cong[OF refl])
  fix mg assume "mg \<in> set (allMatches (categoryPatterns lc category) emails)"
  then obtain pat tx where p: "pat \<in> set (categoryPatterns lc category)" "mg \<in> set (matchAll pat tx)"
    using allMatches_elem by blast
  obtain m g where mg: "mg = (m, g)" by (cases mg)
  from amount_captured(5)[OF p(1) p(2)[unfolded mg]] mg
  show "parses mg = (case mg of (m, g) \<Rightarrow> hasDigit g)" by (simp add: parses_def)
qed

lemma addEmail_searchText:
  "\<exists>f sb d. addEmail ps st e =
     foldl (\<lambda>st' pat. foldl (addMatch f sb d) st' (matchAll pat (searchTextOf e))) st ps"
  unfolding addEmail_def searchTextOf_def Let_def by blast

lemmas rx_defs = rx_seq_def rx_alt_def rx_opt_def rx_star_def rx_plus_def rx_eos_def rx_empty_def
  rx_char_def rx_class_def rx_lit_def canon_def isWhiteSpace_def isDigit_def

lemma usd_match: "matchAll moneyPattern (js '' USD, ok'') = [(js ''USD,'', js '','')]"
  by (simp add: js_def exec_def moneyPattern_def currencyRx_def amountRx_def rx_defs)

lemma default_patterns: "categoryPatterns asciiLower (js ''x'') = [moneyPattern]"
  by (simp add: categoryPatterns_def patterns_def asciiLower_def js_def startsWith_def)

lemma usd_text: "searchTextOf (js ''Content: USD, ok'') = js '' USD, ok''"
  by (simp add: searchTextOf_def lineField_def startsWith_def js_def)

lemma usd_currency: "currencyOf (js ''USD,'') = js ''USD''"
  by (simp add: currencyOf_def js_def currencyRx_def rx_defs)

lemma comma_amount: "capturedAmount (js '','') = None"
  by (simp add: capturedAmount_def parseFloat_def js_def)

lemma usd_sum:
  "sumEmails asciiLower [js ''Content: USD, ok''] (js ''x'') =
     \<lparr>total = Finite 0, details = [], currencyCounts = [(js ''USD'', 1)]\<rparr>"
proof -
  let ?s0 = "\<lparr>total = Finite 0, details = [], currencyCounts = []\<rparr>"
  from addEmail_searchText[of "[moneyPattern]" ?s0 "js ''Content: USD, ok''"]
  obtain f sb d where "addEmail [moneyPattern] ?s0 (js ''Content: USD, ok'') =
      foldl (\<lambda>st' pat. foldl (addMatch f sb d) st' (matchAll pat (searchTextOf (js ''Content: USD, ok''))))
        ?s0 [moneyPattern]"
    by blast
  then have "addEmail [moneyPattern] ?s0 (js ''Content: USD, ok'') =
      \<lparr>total = Finite 0, details = [], currencyCounts = [(js ''USD'', 1)]\<rparr>"
    using comma_amount
    by (simp add: usd_text usd_match addMatch_def usd_currency bump_def capturedAmount_def)
  then show ?thesis by (simp add: sumEmails_def default_patterns)
qed

text \<open>
  Claim C10, as stated, calls the discard branch unreachable. The capture group
  \<open>([0-9,]+(?:\.[0-9]+)?)\<close> also matches a lone comma: in \<open>USD, ok\<close> the generic pattern
  matches \<open>USD,\<close> with the capture \<open>,\<close>, which is empty once its commas are removed,
  so \<open>parseFloat\<close> gives NaN. The match is counted for its currency and adds
  nothing to \<open>total\<close> and \<open>details\<close>.
\<close>

theorem calculateSum_discard_counterexample:
  "allMatches (categoryPatterns asciiLower (js ''x'')) [js ''Content: USD, ok''] =
     [(js ''USD,'', js '','')] \<and>
   capturedAmount (js '','') = None \<and>
   calculateSum asciiLower [js ''Content: USD, ok''] (js ''x'') =
     \<lparr>r_total = Finite 0, r_currency = js ''USD'', r_details = []\<rparr>"
proof (intro conjI)
  show "allMatches (categoryPatterns asciiLower (js ''x'')) [js ''Content: USD, ok''] =
     [(js ''USD,'', js '','')]"
    by (simp add: allMatches_def default_patterns usd_text usd_match)
  show "capturedAmount (js '','') = None" by (rule comma_amount)
  show "calculateSum asciiLower [js ''Content: USD, ok''] (js ''x'') =
     \<lparr>r_total = Finite 0, r_currency = js ''USD'', r_details = []\<rparr>"
    by (simp add: calculateSum_def usd_sum) (simp add: js_def)
qed

lemma mixed_match:
  "matchAll moneyPattern (js '' $5 USD,'') = [(js ''$5'', js ''5''), (js ''USD,'', js '','')]"
  by (simp add: js_def exec_def moneyPattern_def currencyRx_def amountRx_def rx_defs)

lemma mixed_text: "searchTextOf (js ''Content: $5 USD,'') = js '' $5 USD,''"
  by (simp add: searchTextOf_def lineField_def startsWith_def js_def)

lemma five_amount: "capturedAmount (js ''5'') = Some (Finite 5)"
  using toDouble_nat[of 5]
  by (simp add: capturedAmount_def parseFloat_def js_def isDigit_def digitsValue_def)

lemma dollar_currency: "currencyOf (js ''$5'') = js ''$''"
  by (simp add: currencyOf_def js_def currencyRx_def rx_defs)

text \<open>
  Claim C10, amended. For every match of every category pattern the captured group is
  not empty and consists of digits, commas and at most one decimal point; after comma
  stripping \<open>parseFloat\<close> gives NaN exactly when the group consists of commas only. The
  currency counter is incremented for every match: each currency symbol is counted as
  often as it has matches. Exactly the matches whose group holds a digit contribute, in
  the order of the matches, an entry to \<open>details\<close> that carries the matched text, its
  currency symbol and the Number read from the group, and \<open>total\<close> is the sum of these
  Numbers, added from zero in that order in double arithmetic.
\<close>

theorem calculateSum_discard_branch:
  "(\<forall>pat \<in> set (categoryPatterns lc category). \<forall>t. \<forall>(m, g) \<in> set (matchAll pat t).
      g \<noteq> [] \<and> set g \<subseteq> {c. isDigit c \<or> c = 44 \<or> c = 46} \<and>
      length (filter (\<lambda>c. c = 46) g) \<le> 1 \<and>
      (capturedAmount g = None \<longleftrightarrow> set g \<subseteq> {44})) \<and>
   (\<forall>k. map_of (currencyCounts (sumEmails lc emails category)) k =
      (if currencyCount k (allMatches (categoryPatterns lc category) emails) = 0 then None
       else Some (currencyCount k (allMatches (categoryPatterns lc category) emails)))) \<and>
   sum_list (map snd (currencyCounts (sumEmails lc emails category))) =
     length (allMatches (categoryPatterns lc category) emails) \<and>
   map (\<lambda>d. (d_text d, d_currency d, Some (d_amount d))) (r_details (calculateSum lc emails category)) =
     map (\<lambda>(m, g). (m, currencyOf m, capturedAmount g))
       (filter (\<lambda>(m, g). hasDigit g) (allMatches (categoryPatterns lc category) emails)) \<and>
   r_total (calculateSum lc emails category) =
     foldl addNumber (Finite 0) (map d_amount (r_details (calculateSum lc emails category)))"
proof (intro conjI ballI allI)
  fix pat t mg
  assume p: "pat \<in> set (categoryPatterns lc category)" and m: "mg \<in> set (matchAll pat t)"
  obtain m' g where mg: "mg = (m', g)" by (cases mg)
  from amount_captured(1-4)[OF p m[unfolded mg]] mg
  show "case mg of (m, g) \<Rightarrow>
      g \<noteq> [] \<and> set g \<subseteq> {c. isDigit c \<or> c = 44 \<or> c = 46} \<and>
      length (filter (\<lambda>c. c = 46) g) \<le> 1 \<and>
      (capturedAmount g = None \<longleftrightarrow> set g \<subseteq> {44})"
    by simp
next
  fix k
  from sumEmails_inv[of lc emails category]
  show "map_of (currencyCounts (sumEmails lc emails category)) k =
      (if currencyCount k (allMatches (categoryPatterns lc category) emails) = 0 then None
       else Some (currencyCount k (allMatches (categoryPatterns lc category) emails)))"
    unfolding sumInv_def by blast
next
  from sumEmails_inv[of lc emails category]
  show "sum_list (map snd (currencyCounts (sumEmails lc emails category))) =
     length (allMatches (categoryPatterns lc category) emails)"
    unfolding sumInv_def by blast
next
  from sumEmails_inv[of lc emails category]
  have "map (\<lambda>d. (d_text d, d_currency d, Some (d_amount d))) (details (sumEmails lc emails category)) =
     map (\<lambda>(m, g). (m, currencyOf m, capturedAmount g))
       (filter parses (allMatches (categoryPatterns lc category) emails))"
    unfolding sumInv_def by blast
  then show "map (\<lambda>d. (d_text d, d_currency d, Some (d_amount d))) (r_details (calculateSum lc emails category)) =
     map (\<lambda>(m, g). (m, currencyOf m, capturedAmount g))
       (filter (\<lambda>(m, g). hasDigit g) (allMatches (categoryPatterns lc category) emails))"
    unfolding parses_hasDigit by (simp add: calculateSum_def Let_def)
next
  from sumEmails_inv[of lc emails category]
  have "total (sumEmails lc emails category) =
      foldl addNumber (Finite 0) (map d_amount (details (sumEmails lc emails category)))"
    unfolding sumInv_def by blast
  then show "r_total (calculateSum lc emails category) =
     foldl addNumber (Finite 0) (map d_amount (r_details (calculateSum lc emails category)))"
    by (simp add: calculateSum_def Let_def)
qed

theorem calculateSum_discard_branch_witness:
  "moneyPattern \<in> set (categoryPatterns asciiLower (js ''x'')) \<and>
   (js ''USD,'', js '','') \<in> set (matchAll moneyPattern (js '' $5 USD,'')) \<and>
   capturedAmount (js '','') = None \<and>
   map_of (currencyCounts (sumEmails asciiLower [js ''Content: $5 USD,''] (js ''x''))) (js ''USD'') = Some 1 \<and>
   map (\<lambda>d. (d_text d, d_currency d, Some (d_amount d)))
     (r_details (calculateSum asciiLower [js ''Content: $5 USD,''] (js ''x''))) =
     [(js ''$5'', js ''$'', Some (Finite 5))] \<and>
   r_total (calculateSum asciiLower [js ''Content: $5 USD,''] (js ''x'')) = Finite 5"
proof -
  have p: "moneyPattern \<in> set (categoryPatterns asciiLower (js ''x''))"
    by (simp add: default_patterns)
  have m: "(js ''USD,'', js '','') \<in> set (matchAll moneyPattern (js '' $5 USD,''))"
    by (simp add: mixed_match)
  have a: "allMatches (categoryPatterns asciiLower (js ''x'')) [js ''Content: $5 USD,''] =
      [(js ''$5'', js ''5''), (js ''USD,'', js '','')]"
    by (simp add: allMatches_def default_patterns mixed_text mixed_match)
  have h: "hasDigit (js ''5'')" "\<not> hasDigit (js '','')"
    by (simp_all add: hasDigit_def js_def isDigit_def)
  have cc: "currencyCount (js ''USD'') [(js ''$5'', js ''5''), (js ''USD,'', js '','')] = 1"
    by (simp add: currencyCount_def usd_currency dollar_currency) (simp add: js_def)
  note t = calculateSum_discard_branch[of asciiLower "js ''x''" "[js ''Content: $5 USD,'']"]
  from t[THEN conjunct1, rule_format, OF p m]
  have "capturedAmount (js '','') = None \<longleftrightarrow> set (js '','') \<subseteq> {44}"
    by simp
  then have n: "capturedAmount (js '','') = None" by (simp add: js_def)
  from t[THEN conjunct2, THEN conjunct1, rule_format, of "js ''USD''"]
  have c: "map_of (currencyCounts (sumEmails asciiLower [js ''Content: $5 USD,''] (js ''x''))) (js ''USD'') = Some 1"
    unfolding a cc by simp
  from t[THEN conjunct2, THEN conjunct2, THEN conjunct2, THEN conjunct1]
  have d: "map (\<lambda>d. (d_text d, d_currency d, Some (d_amount d)))
     (r_details (calculateSum asciiLower [js ''Content: $5 USD,''] (js ''x''))) =
     [(js ''$5'', js ''$'', Some (Finite 5))]"
    unfolding a using h by (simp add: five_amount dollar_currency)
  then have "map d_amount (r_details (calculateSum asciiLower [js ''Content: $5 USD,''] (js ''x''))) = [Finite 5]"
    by (cases "r_details (calculateSum asciiLower [js ''Content: $5 USD,''] (js ''x''))") auto
  with t[THEN conjunct2, THEN conjunct2, THEN conjunct2, THEN conjunct2]
  have "r_total (calculateSum asciiLower [js ''Content: $5 USD,''] (js ''x'')) =
      addNumber (Finite 0) (Finite 5)"
    by simp
  also have "\<dots> = Finite 5" using addNumber_nat[of 0 5] by simp
  finally show ?thesis using p m n c d by simp
qed

subsection \<open>The flights scenario\<close>












































end
